theory Spec2Isabelle
  imports Complex_Main "HOL-Library.Log_Nat"
begin

section \<open>JavaScript numbers and strings used by the client\<close>

text \<open>
  The frontend \<^verbatim>\<open>dist/app.js\<close> computes with JavaScript numbers (IEEE-754 binary64) and
  strings.  A finite number is modelled by the rational it denotes; the result of an
  arithmetic operation is the exact result rounded to 53 significant bits, ties to even
  (\<open>fl\<close>).  The rounding is the one of the normal range,
  \<open>2\<^sup>-\<^sup>1\<^sup>0\<^sup>2\<^sup>2 \<le> \<bar>x\<bar> < 2\<^sup>1\<^sup>0\<^sup>2\<^sup>4\<close>; every quotient and product the client forms from
  week counts and screen sizes lies in it.  The integers the backend sends (week counts,
  the numbers of the configuration) and the screen sizes are natural numbers; binary64
  holds them exactly below \<open>2\<^sup>5\<^sup>3\<close>.  A string is a list of characters, one per code
  unit below 256.
\<close>

definition exponent :: "rat \<Rightarrow> int" where
  \<comment> \<open>the binary exponent \<open>\<lfloor>log\<^sub>2 x\<rfloor>\<close> of a positive rational\<close>
  "exponent x = (case quotient_of x of (p, q) \<Rightarrow>
     (let d = bitlen p - bitlen q in if 2 powi d \<le> x then d else d - 1))"

definition round_half_even :: "rat \<Rightarrow> int" where
  "round_half_even x = (let f = \<lfloor>x\<rfloor>; r = x - of_int f in
     if r < 1 / 2 then f else if 1 / 2 < r then f + 1 else if even f then f else f + 1)"

definition fl :: "rat \<Rightarrow> rat" where
  \<comment> \<open>the binary64 value nearest to \<open>x\<close>\<close>
  "fl x = (if x = 0 then 0 else
     (let u = 2 powi (exponent \<bar>x\<bar> - 52) in of_int (round_half_even (x / u)) * u))"

definition Math_round :: "rat \<Rightarrow> int" where
  \<comment> \<open>\<^verbatim>\<open>Math.round\<close>: the nearest integer, a tie going towards \<open>+\<infinity>\<close>\<close>
  "Math_round x = \<lfloor>x + 1 / 2\<rfloor>"

datatype jsnum = NaN | PosInf | NegInf | Num rat

definition Number :: "rat \<Rightarrow> jsnum" where
  \<comment> \<open>the Number value for a mathematical value: rounded, infinite on overflow\<close>
  "Number x = (let y = fl x in
     if 2 ^ 1024 \<le> \<bar>y\<bar> then (if 0 < x then PosInf else NegInf) else Num y)"

subsection \<open>Number to string\<close>

definition digit_char :: "nat \<Rightarrow> char" where
  "digit_char d = ''0123456789'' ! d"

fun dec :: "nat \<Rightarrow> string" where
  "dec n = (if n < 10 then [digit_char n] else dec (n div 10) @ [digit_char (n mod 10)])"

declare dec.simps [simp del]

definition toString :: "int \<Rightarrow> string" where
  \<comment> \<open>\<^verbatim>\<open>Number.prototype.toString\<close> of an integral number below \<open>10\<^sup>2\<^sup>1\<close> in magnitude\<close>
  "toString i = (if i < 0 then CHR ''-'' # dec (nat (- i)) else dec (nat i))"

subsection \<open>\<^verbatim>\<open>parseInt\<close> with no radix argument\<close>

definition is_space :: "char \<Rightarrow> bool" where
  \<comment> \<open>white space and line terminators among the code units below 256\<close>
  "is_space c = (c \<in> set [CHR 0x09, CHR 0x0A, CHR 0x0B, CHR 0x0C, CHR 0x0D, CHR 0x20, CHR 0xA0])"

definition digit_of :: "int \<Rightarrow> char \<Rightarrow> int option" where
  \<comment> \<open>the value of a digit of radix 10 or 16\<close>
  "digit_of R c = (let n = (of_char c :: int) in
     if 48 \<le> n \<and> n \<le> 57 then Some (n - 48)
     else if R = 16 \<and> 97 \<le> n \<and> n \<le> 102 then Some (n - 87)
     else if R = 16 \<and> 65 \<le> n \<and> n \<le> 70 then Some (n - 55)
     else None)"

definition digits_value :: "int \<Rightarrow> string \<Rightarrow> int" where
  "digits_value R Z = foldl (\<lambda>a c. a * R + the (digit_of R c)) 0 Z"

definition parseInt :: "string \<Rightarrow> jsnum" where
  "parseInt s =
    (let S0 = dropWhile is_space s;
         sign = (if S0 \<noteq> [] \<and> hd S0 = CHR ''-'' then - 1 else 1 :: int);
         S1 = (if S0 \<noteq> [] \<and> (hd S0 = CHR ''+'' \<or> hd S0 = CHR ''-'') then tl S0 else S0);
         hex = (take 2 S1 = ''0x'' \<or> take 2 S1 = ''0X'');
         R = (if hex then 16 else 10);
         S2 = (if hex then drop 2 S1 else S1);
         Z = takeWhile (\<lambda>c. digit_of R c \<noteq> None) S2
     in if Z = [] then NaN else Number (of_int (sign * digits_value R Z)))"

definition or_null :: "jsnum \<Rightarrow> jsnum option" where
  \<comment> \<open>\<^verbatim>\<open>x || null\<close> on a number: \<^verbatim>\<open>NaN\<close> and zero are falsy\<close>
  "or_null x = (if x = NaN \<or> x = Num 0 then None else Some x)"

definition or_null_string :: "string \<Rightarrow> string option" where
  \<comment> \<open>\<^verbatim>\<open>x || null\<close> on a string: the empty string is falsy\<close>
  "or_null_string x = (if x = [] then None else Some x)"

subsection \<open>\<^verbatim>\<open>formatNumber\<close>\<close>

definition is_digit :: "char \<Rightarrow> bool" where
  "is_digit c = (48 \<le> (of_char c :: nat) \<and> (of_char c :: nat) \<le> 57)"

definition is_word :: "char \<Rightarrow> bool" where
  \<comment> \<open>the class \<^verbatim>\<open>\w\<close>\<close>
  "is_word c = (let n = (of_char c :: nat) in
     (48 \<le> n \<and> n \<le> 57) \<or> (65 \<le> n \<and> n \<le> 90) \<or> (97 \<le> n \<and> n \<le> 122) \<or> n = 95)"

definition word_before :: "char option \<Rightarrow> bool" where
  "word_before p = (case p of None \<Rightarrow> False | Some c \<Rightarrow> is_word c)"

definition word_after :: "string \<Rightarrow> bool" where
  "word_after r = (case r of [] \<Rightarrow> False | c # _ \<Rightarrow> is_word c)"

definition comma_here :: "char option \<Rightarrow> string \<Rightarrow> bool" where
  \<comment> \<open>the pattern \<^verbatim>\<open>\B(?=(\d{3})+(?!\d))\<close> at the position between \<open>p\<close> and \<open>r\<close>\<close>
  "comma_here p r = (word_before p = word_after r \<and>
     (let d = length (takeWhile is_digit r) in 0 < d \<and> d mod 3 = 0))"

fun insert_commas :: "char option \<Rightarrow> string \<Rightarrow> string" where
  "insert_commas p [] = (if comma_here p [] then '','' else [])"
| "insert_commas p (c # cs) =
     (if comma_here p (c # cs) then '','' else []) @ c # insert_commas (Some c) cs"

definition formatNumber :: "nat \<Rightarrow> string" where
  "formatNumber num = insert_commas None (dec num)"

section \<open>The preview/apply client of \<^verbatim>\<open>dist/app.js\<close>\<close>

subsection \<open>Payloads of the backend commands\<close>

text \<open>What \<^verbatim>\<open>get_config\<close> resolves to.  A field the backend may leave out is an option.\<close>

record config =
  dob :: "string option"
  lifespan_years :: nat
  screen_width :: nat
  screen_height :: nat
  next_months :: nat
  schedule_installed :: bool
  theme :: string
  default_mode :: "string option"

text \<open>What \<^verbatim>\<open>generate_preview\<close> resolves to.\<close>

record preview_response =
  image_base64 :: string
  title :: string
  subtitle :: string
  elapsed_weeks :: nat
  remaining_weeks :: nat
  total_weeks :: nat

text \<open>The object \<^verbatim>\<open>buildRequest\<close> returns; \<open>None\<close> is \<^verbatim>\<open>null\<close>.\<close>

record request =
  mode :: string
  dob :: "string option"
  lifespan :: "jsnum option"
  months :: "jsnum option"
  theme :: string
  width :: "jsnum option"
  height :: "jsnum option"

text \<open>
  A call of \<^verbatim>\<open>invoke\<close>.  The arguments of \<open>save_config\<close> are, in this order, \<^verbatim>\<open>dob\<close>,
  \<^verbatim>\<open>lifespan\<close>, \<^verbatim>\<open>theme\<close>, \<^verbatim>\<open>width\<close>, \<^verbatim>\<open>height\<close>, \<^verbatim>\<open>defaultMode\<close> and \<^verbatim>\<open>months\<close>.
\<close>

datatype call =
    get_config
  | generate_preview request
  | set_wallpaper_cmd request
  | toggle_schedule bool
  | save_config "string option" "jsnum option" string "jsnum option" "jsnum option" string
      "jsnum option"

text \<open>How a call settles: the promise rejects with an error, or resolves with a value.\<close>

datatype response =
    Rejected string
  | Resolved_config config
  | Resolved_preview preview_response
  | Resolved_message string
  | Resolved_unit

text \<open>
  An async function is cut at each \<^verbatim>\<open>await\<close>: the part before it runs when the function
  is called and leaves a task, the part after it runs when the awaited call settles.
\<close>

datatype task =
    Await_get_config
  | Await_generate_preview
  | Await_set_wallpaper_cmd
  | Await_save_config
  | Await_toggle_schedule bool

datatype log = console_log string string | console_error string string

subsection \<open>Assigning to the value of an input\<close>

text \<open>
  An input element sanitises the string a script assigns to its \<^verbatim>\<open>value\<close>: a text input
  drops carriage returns and line feeds, a date input keeps a valid date string
  (\<^verbatim>\<open>yyyy-mm-dd\<close>, four or more digits for a year above zero) and blanks everything else.
  The markup of the page is not part of the sources, so the type of the date-of-birth
  input is a parameter of the state.  The other four inputs are only assigned the decimal
  strings of integers, which a text input and a number input both keep as they are.
\<close>

datatype input_type = type_text | type_date

definition days_in_month :: "int \<Rightarrow> int \<Rightarrow> int" where
  "days_in_month y m =
     (if m \<in> set [1, 3, 5, 7, 8, 10, 12] then 31
      else if m \<in> set [4, 6, 9, 11] then 30
      else if y mod 400 = 0 \<or> (y mod 4 = 0 \<and> y mod 100 \<noteq> 0) then 29
      else 28)"

definition valid_date_string :: "string \<Rightarrow> bool" where
  "valid_date_string v =
    (let y = takeWhile is_digit v; r = dropWhile is_digit v
     in 4 \<le> length y \<and> 0 < digits_value 10 y \<and> length r = 6 \<and>
        r ! 0 = CHR ''-'' \<and> is_digit (r ! 1) \<and> is_digit (r ! 2) \<and>
        r ! 3 = CHR ''-'' \<and> is_digit (r ! 4) \<and> is_digit (r ! 5) \<and>
        1 \<le> digits_value 10 [r ! 1, r ! 2] \<and> digits_value 10 [r ! 1, r ! 2] \<le> 12 \<and>
        1 \<le> digits_value 10 [r ! 4, r ! 5] \<and>
        digits_value 10 [r ! 4, r ! 5]
          \<le> days_in_month (digits_value 10 y) (digits_value 10 [r ! 1, r ! 2]))"

definition sanitize :: "input_type \<Rightarrow> string \<Rightarrow> string" where
  \<comment> \<open>the value an input of the given type holds once \<open>v\<close> has been assigned to it\<close>
  "sanitize ty v =
    (case ty of
       type_text \<Rightarrow> filter (\<lambda>c. c \<noteq> CHR 0x0A \<and> c \<noteq> CHR 0x0D) v
     | type_date \<Rightarrow> (if valid_date_string v then v else []))"

subsection \<open>The state\<close>

text \<open>
  The three globals of the script, the state of the elements it reads and writes, the
  screen it measures, and what it has done to the outside: the console, the calls made,
  the calls in flight and the timers not yet fired.  Each of \<open>modeTabs\<close> and \<open>themeBtns\<close>
  is the list of the elements with their \<^verbatim>\<open>data-mode\<close> or \<^verbatim>\<open>data-theme\<close> attribute and
  whether they carry the class \<^verbatim>\<open>active\<close>; \<open>lifeOnlyElements\<close> and \<open>monthsOnlyElements\<close> give,
  per element, whether it carries the class \<^verbatim>\<open>hidden\<close>.  The markup of the page is not
  part of the sources: the initial state of the elements is a parameter (the document
  \<open>d\<close> of \<open>loaded\<close>).  An event that changes an input carries the value as the script
  reads it afterwards.
\<close>

record client =
  currentMode :: string
  currentTheme :: string
  hasPreview :: bool
  modeTabs :: "(string \<times> bool) list"
  themeBtns :: "(string \<times> bool) list"
  dobInput_type :: input_type
  dobInput_value :: string
  lifespanInput_value :: string
  monthsInput_value :: string
  widthInput_value :: string
  heightInput_value :: string
  generateBtn_loading :: bool
  generateBtn_disabled :: bool
  setWallpaperBtn_loading :: bool
  setWallpaperBtn_disabled :: bool
  scheduleToggle_checked :: bool
  previewPlaceholder_hidden :: bool
  previewImage_src :: string
  previewImage_hidden :: bool
  previewTitle_text :: string
  previewSubtitle_text :: string
  statElapsed_text :: string
  statRemaining_text :: string
  statPercent_text :: string
  toast_className :: "string list"
  toastMessage_text :: string
  lifeOnlyElements :: "bool list"
  monthsOnlyElements :: "bool list"
  window_screen_width :: nat
  window_screen_height :: nat
  window_devicePixelRatio :: rat
  console :: "log list"
  invoked :: "call list"
  pending :: "task list"
  timers :: nat

subsection \<open>The functions of the script\<close>

definition updateModeVisibility :: "client \<Rightarrow> client" where
  "updateModeVisibility s =
    (let isLifeMode = (currentMode s = ''life'');
         isMonthsMode = (currentMode s = ''next-months'')
     in s\<lparr>lifeOnlyElements := map (\<lambda>_. \<not> isLifeMode) (lifeOnlyElements s),
          monthsOnlyElements := map (\<lambda>_. \<not> isMonthsMode) (monthsOnlyElements s)\<rparr>)"

definition showToast :: "string \<Rightarrow> string \<Rightarrow> client \<Rightarrow> client" where
  "showToast message type s =
     s\<lparr>toastMessage_text := message,
       toast_className := [''toast'', ''show'', type],
       timers := Suc (timers s)\<rparr>"

definition toast_timeout :: "client \<Rightarrow> client" where
  \<comment> \<open>the callback given to \<^verbatim>\<open>setTimeout\<close>\<close>
  "toast_timeout s = s\<lparr>toast_className := removeAll ''show'' (toast_className s)\<rparr>"

definition detectScreenResolution :: "client \<Rightarrow> client" where
  "detectScreenResolution s =
    (let width = fl (of_nat (window_screen_width s) * window_devicePixelRatio s);
         height = fl (of_nat (window_screen_height s) * window_devicePixelRatio s)
     in showToast ''Screen resolution detected'' ''success''
          (s\<lparr>widthInput_value := toString (Math_round width),
             heightInput_value := toString (Math_round height)\<rparr>))"

definition buildRequest :: "client \<Rightarrow> request" where
  "buildRequest s =
     \<lparr>mode = currentMode s,
      dob = or_null_string (dobInput_value s),
      lifespan = or_null (parseInt (lifespanInput_value s)),
      months = or_null (parseInt (monthsInput_value s)),
      theme = currentTheme s,
      width = or_null (parseInt (widthInput_value s)),
      height = or_null (parseInt (heightInput_value s))\<rparr>"

definition invoke :: "call \<Rightarrow> task \<Rightarrow> client \<Rightarrow> client" where
  \<comment> \<open>\<^verbatim>\<open>await invoke(...)\<close>: the call goes out and the rest of the function waits\<close>
  "invoke c k s = s\<lparr>invoked := invoked s @ [c], pending := pending s @ [k]\<rparr>"

text \<open>\<^verbatim>\<open>loadConfig\<close>, and \<^verbatim>\<open>init\<close> around it.\<close>

definition truthy :: "string option \<Rightarrow> bool" where
  "truthy v = (case v of None \<Rightarrow> False | Some x \<Rightarrow> x \<noteq> [])"

definition loadConfig_resolved :: "config \<Rightarrow> client \<Rightarrow> client" where
  "loadConfig_resolved c s =
    (let s1 = (if truthy (config.dob c)
               then s\<lparr>dobInput_value := sanitize (dobInput_type s) (the (config.dob c))\<rparr>
               else s);
         s2 = s1\<lparr>lifespanInput_value := toString (int (lifespan_years c)),
                 widthInput_value := toString (int (screen_width c)),
                 heightInput_value := toString (int (screen_height c)),
                 monthsInput_value := toString (int (next_months c)),
                 scheduleToggle_checked := schedule_installed c,
                 currentTheme := config.theme c,
                 themeBtns := map (\<lambda>(t, a). (t, t = config.theme c)) (themeBtns s1)\<rparr>
     in if truthy (default_mode c)
        then updateModeVisibility
               (s2\<lparr>currentMode := the (default_mode c),
                   modeTabs := map (\<lambda>(m, a). (m, m = the (default_mode c))) (modeTabs s2)\<rparr>)
        else s2)"

definition loadConfig_rejected :: "string \<Rightarrow> client \<Rightarrow> client" where
  "loadConfig_rejected error s =
     s\<lparr>console := console s @ [console_log ''Could not load config, using defaults:'' error]\<rparr>"

definition init_start :: "client \<Rightarrow> client" where
  \<comment> \<open>\<^verbatim>\<open>setupEventListeners()\<close>, then \<^verbatim>\<open>loadConfig()\<close> up to its \<^verbatim>\<open>await\<close>\<close>
  "init_start s = invoke get_config Await_get_config s"

definition init_continue :: "client \<Rightarrow> client" where
  \<comment> \<open>the rest of \<^verbatim>\<open>init\<close> once \<^verbatim>\<open>loadConfig\<close> has returned\<close>
  "init_continue s = detectScreenResolution (updateModeVisibility s)"

text \<open>\<^verbatim>\<open>generatePreview\<close>.\<close>

definition percent :: "nat \<Rightarrow> nat \<Rightarrow> int" where
  \<comment> \<open>the constant \<^verbatim>\<open>percent\<close> of \<^verbatim>\<open>generatePreview\<close>\<close>
  "percent elapsed_w total_w =
     (if 0 < total_w then Math_round (fl (fl (of_nat elapsed_w / of_nat total_w) * 100)) else 0)"

definition generatePreview_start :: "client \<Rightarrow> client" where
  "generatePreview_start s =
    (let s1 = s\<lparr>generateBtn_loading := True, generateBtn_disabled := True\<rparr>
     in invoke (generate_preview (buildRequest s1)) Await_generate_preview s1)"

definition generatePreview_finally :: "client \<Rightarrow> client" where
  "generatePreview_finally s = s\<lparr>generateBtn_loading := False, generateBtn_disabled := False\<rparr>"

definition generatePreview_resolved :: "preview_response \<Rightarrow> client \<Rightarrow> client" where
  "generatePreview_resolved response s =
     generatePreview_finally (showToast ''Preview generated!'' ''success''
       (s\<lparr>previewImage_src := ''data:image/png;base64,'' @ image_base64 response,
          previewImage_hidden := False,
          previewPlaceholder_hidden := True,
          previewTitle_text := title response,
          previewSubtitle_text := subtitle response,
          statElapsed_text := formatNumber (elapsed_weeks response),
          statRemaining_text := formatNumber (remaining_weeks response),
          statPercent_text :=
            toString (percent (elapsed_weeks response) (total_weeks response)) @ ''%'',
          setWallpaperBtn_disabled := False,
          hasPreview := True\<rparr>))"

definition generatePreview_rejected :: "string \<Rightarrow> client \<Rightarrow> client" where
  "generatePreview_rejected error s =
     generatePreview_finally
       ((showToast (''Error: '' @ error) ''error'' s)
          \<lparr>console := console s @ [console_error ''Generate preview error:'' error]\<rparr>)"

text \<open>\<^verbatim>\<open>setWallpaper\<close> and the \<^verbatim>\<open>saveConfig\<close> it awaits.\<close>

definition setWallpaper_start :: "client \<Rightarrow> client" where
  "setWallpaper_start s =
    (let s1 = s\<lparr>setWallpaperBtn_loading := True, setWallpaperBtn_disabled := True\<rparr>
     in invoke (set_wallpaper_cmd (buildRequest s1)) Await_set_wallpaper_cmd s1)"

definition setWallpaper_finally :: "client \<Rightarrow> client" where
  "setWallpaper_finally s =
     s\<lparr>setWallpaperBtn_loading := False, setWallpaperBtn_disabled := False\<rparr>"

definition saveConfig_start :: "client \<Rightarrow> client" where
  "saveConfig_start s =
     invoke (save_config
               (or_null_string (dobInput_value s))
               (or_null (parseInt (lifespanInput_value s)))
               (currentTheme s)
               (or_null (parseInt (widthInput_value s)))
               (or_null (parseInt (heightInput_value s)))
               (currentMode s)
               (or_null (parseInt (monthsInput_value s))))
       Await_save_config s"

definition saveConfig_rejected :: "string \<Rightarrow> client \<Rightarrow> client" where
  "saveConfig_rejected error s =
     s\<lparr>console := console s @ [console_error ''Save config error:'' error]\<rparr>"

definition setWallpaper_after_save :: "client \<Rightarrow> client" where
  \<comment> \<open>the rest of the \<^verbatim>\<open>try\<close> block once \<^verbatim>\<open>saveConfig\<close> has returned\<close>
  "setWallpaper_after_save s =
     setWallpaper_finally (showToast ''Wallpaper set successfully!'' ''success'' s)"

definition setWallpaper_rejected :: "string \<Rightarrow> client \<Rightarrow> client" where
  "setWallpaper_rejected error s =
     setWallpaper_finally
       ((showToast (''Error: '' @ error) ''error'' s)
          \<lparr>console := console s @ [console_error ''Set wallpaper error:'' error]\<rparr>)"

text \<open>\<^verbatim>\<open>toggleSchedule\<close>; the task keeps the constant \<^verbatim>\<open>enabled\<close>.\<close>

definition toggleSchedule_start :: "client \<Rightarrow> client" where
  "toggleSchedule_start s =
    (let enabled = scheduleToggle_checked s
     in invoke (toggle_schedule enabled) (Await_toggle_schedule enabled) s)"

definition toggleSchedule_resolved :: "string \<Rightarrow> client \<Rightarrow> client" where
  "toggleSchedule_resolved message s = showToast message ''success'' s"

definition toggleSchedule_rejected :: "bool \<Rightarrow> string \<Rightarrow> client \<Rightarrow> client" where
  "toggleSchedule_rejected enabled error s =
     (showToast (''Error: '' @ error) ''error'' (s\<lparr>scheduleToggle_checked := \<not> enabled\<rparr>))
       \<lparr>console := console s @ [console_error ''Toggle schedule error:'' error]\<rparr>"

subsection \<open>Events\<close>

text \<open>
  The script runs in the handlers it registers in \<^verbatim>\<open>setupEventListeners\<close> and in the
  continuations of its awaited calls.  An event is a click or a change the user makes, a
  call that settles, the toast timer that fires, or the screen that changes.  A button
  that is disabled receives no click.
\<close>

datatype field = Dob | Lifespan | Months | Width | Height

datatype event =
    Click_modeTab nat
  | Click_themeBtn nat
  | Click_detectResolutionBtn
  | Click_generateBtn
  | Click_setWallpaperBtn
  | Change_scheduleToggle
  | Change_input field string
  | Settle nat response
  | Timeout
  | Screen nat nat rat

definition activate :: "nat \<Rightarrow> (string \<times> bool) list \<Rightarrow> (string \<times> bool) list" where
  \<comment> \<open>the class \<^verbatim>\<open>active\<close> is taken from every element and given to the one clicked\<close>
  "activate k xs = (map (\<lambda>(v, a). (v, False)) xs)[k := (fst (xs ! k), True)]"

definition click_modeTab :: "nat \<Rightarrow> client \<Rightarrow> client" where
  "click_modeTab k s =
     updateModeVisibility
       (s\<lparr>modeTabs := activate k (modeTabs s), currentMode := fst (modeTabs s ! k)\<rparr>)"

definition click_themeBtn :: "nat \<Rightarrow> client \<Rightarrow> client" where
  "click_themeBtn k s =
     s\<lparr>themeBtns := activate k (themeBtns s), currentTheme := fst (themeBtns s ! k)\<rparr>"

definition set_value :: "field \<Rightarrow> string \<Rightarrow> client \<Rightarrow> client" where
  "set_value f v s =
    (case f of
       Dob \<Rightarrow> s\<lparr>dobInput_value := v\<rparr>
     | Lifespan \<Rightarrow> s\<lparr>lifespanInput_value := v\<rparr>
     | Months \<Rightarrow> s\<lparr>monthsInput_value := v\<rparr>
     | Width \<Rightarrow> s\<lparr>widthInput_value := v\<rparr>
     | Height \<Rightarrow> s\<lparr>heightInput_value := v\<rparr>)"

definition auto_generate :: "field \<Rightarrow> bool" where
  \<comment> \<open>the inputs of the array \<^verbatim>\<open>inputs\<close>, which get the \<^verbatim>\<open>change\<close> listener\<close>
  "auto_generate f = (f = Dob \<or> f = Lifespan \<or> f = Months)"

definition change_input :: "field \<Rightarrow> string \<Rightarrow> client \<Rightarrow> client" where
  "change_input f v s =
    (let s1 = set_value f v s
     in if auto_generate f then (if hasPreview s1 then generatePreview_start s1 else s1) else s1)"

definition change_scheduleToggle :: "client \<Rightarrow> client" where
  \<comment> \<open>the user flips the control, then \<^verbatim>\<open>toggleSchedule\<close> runs\<close>
  "change_scheduleToggle s =
     toggleSchedule_start (s\<lparr>scheduleToggle_checked := \<not> scheduleToggle_checked s\<rparr>)"

definition remove_nth :: "nat \<Rightarrow> 'a list \<Rightarrow> 'a list" where
  "remove_nth i xs = take i xs @ drop (Suc i) xs"

fun continue :: "task \<Rightarrow> response \<Rightarrow> client \<Rightarrow> client option" where
  "continue Await_get_config (Resolved_config c) s = Some (init_continue (loadConfig_resolved c s))"
| "continue Await_get_config (Rejected e) s = Some (init_continue (loadConfig_rejected e s))"
| "continue Await_generate_preview (Resolved_preview r) s = Some (generatePreview_resolved r s)"
| "continue Await_generate_preview (Rejected e) s = Some (generatePreview_rejected e s)"
| "continue Await_set_wallpaper_cmd (Resolved_message m) s = Some (saveConfig_start s)"
| "continue Await_set_wallpaper_cmd (Rejected e) s = Some (setWallpaper_rejected e s)"
| "continue Await_save_config Resolved_unit s = Some (setWallpaper_after_save s)"
| "continue Await_save_config (Rejected e) s =
     Some (setWallpaper_after_save (saveConfig_rejected e s))"
| "continue (Await_toggle_schedule enabled) (Resolved_message m) s =
     Some (toggleSchedule_resolved m s)"
| "continue (Await_toggle_schedule enabled) (Rejected e) s =
     Some (toggleSchedule_rejected enabled e s)"
| "continue _ _ _ = None"

definition settle :: "nat \<Rightarrow> response \<Rightarrow> client \<Rightarrow> client" where
  \<comment> \<open>the call in flight at position \<open>i\<close> settles; a response of the wrong kind for the
      command is no event\<close>
  "settle i r s =
    (if i < length (pending s)
     then (case continue (pending s ! i) r (s\<lparr>pending := remove_nth i (pending s)\<rparr>) of
             None \<Rightarrow> s | Some s' \<Rightarrow> s')
     else s)"

definition step :: "client \<Rightarrow> event \<Rightarrow> client" where
  "step s e =
    (case e of
       Click_modeTab k \<Rightarrow> (if k < length (modeTabs s) then click_modeTab k s else s)
     | Click_themeBtn k \<Rightarrow> (if k < length (themeBtns s) then click_themeBtn k s else s)
     | Click_detectResolutionBtn \<Rightarrow> detectScreenResolution s
     | Click_generateBtn \<Rightarrow> (if generateBtn_disabled s then s else generatePreview_start s)
     | Click_setWallpaperBtn \<Rightarrow> (if setWallpaperBtn_disabled s then s else setWallpaper_start s)
     | Change_scheduleToggle \<Rightarrow> change_scheduleToggle s
     | Change_input f v \<Rightarrow> change_input f v s
     | Settle i r \<Rightarrow> settle i r s
     | Timeout \<Rightarrow> (if 0 < timers s then toast_timeout (s\<lparr>timers := timers s - 1\<rparr>) else s)
     | Screen w h r \<Rightarrow>
         s\<lparr>window_screen_width := w, window_screen_height := h, window_devicePixelRatio := r\<rparr>)"

definition run :: "client \<Rightarrow> event list \<Rightarrow> client" where
  "run s es = foldl step s es"

definition loaded :: "client \<Rightarrow> client" where
  \<comment> \<open>the state once the script has run on the document \<open>d\<close>: the globals have their initial
      values and \<^verbatim>\<open>init\<close> waits for \<^verbatim>\<open>get_config\<close>\<close>
  "loaded d =
     init_start (d\<lparr>currentMode := ''year-end'', currentTheme := ''dark'', hasPreview := False,
                    console := [], invoked := [], pending := [], timers := 0\<rparr>)"

definition started :: "client \<Rightarrow> response \<Rightarrow> client" where
  \<comment> \<open>the state when \<^verbatim>\<open>init\<close> has finished on the document \<open>d\<close>, \<^verbatim>\<open>get_config\<close> having settled
      with \<open>r\<close>\<close>
  "started d r = step (loaded d) (Settle 0 r)"


subsection \<open>Notions the properties are stated with\<close>

definition preview_success :: "client \<Rightarrow> event \<Rightarrow> bool" where
  \<comment> \<open>the event is a \<^verbatim>\<open>generate_preview\<close> call that resolves\<close>
  "preview_success s e =
    (case e of
       Settle i (Resolved_preview r) \<Rightarrow>
         i < length (pending s) \<and> pending s ! i = Await_generate_preview
     | _ \<Rightarrow> False)"

fun successes :: "client \<Rightarrow> event list \<Rightarrow> nat" where
  \<comment> \<open>how many \<^verbatim>\<open>generate_preview\<close> calls resolve along a run\<close>
  "successes s [] = 0"
| "successes s (e # es) = (if preview_success s e then 1 else 0) + successes (step s e) es"

definition preview_state ::
  "client \<Rightarrow> (string \<times> bool \<times> bool) \<times> (string \<times> string) \<times> (string \<times> string \<times> string) \<times> bool \<times> bool" where
  \<comment> \<open>the image, the title and subtitle, the three stats, \<^verbatim>\<open>hasPreview\<close> and whether the
      set-wallpaper button is disabled\<close>
  "preview_state s =
     ((previewImage_src s, previewImage_hidden s, previewPlaceholder_hidden s),
      (previewTitle_text s, previewSubtitle_text s),
      (statElapsed_text s, statRemaining_text s, statPercent_text s),
      hasPreview s, setWallpaperBtn_disabled s)"


definition positive_integer_string :: "string \<Rightarrow> bool" where
  \<comment> \<open>a non-empty string of decimal digits that is not all zeros\<close>
  "positive_integer_string s =
     (s \<noteq> [] \<and> list_all is_digit s \<and> \<not> list_all (\<lambda>c. c = CHR ''0'') s)"

definition document0 :: client where
  \<comment> \<open>a document for the examples: three mode tabs, four theme buttons, a date input for
      the date of birth, empty inputs, the set-wallpaper button disabled, a screen of 2560
      by 1440 at ratio 1\<close>
  "document0 =
     \<lparr>currentMode = [], currentTheme = [], hasPreview = False,
      modeTabs = [(''life'', False), (''year-end'', True), (''next-months'', False)],
      themeBtns = [(''dark'', True), (''terminal'', False), (''minimal'', False), (''sunset'', False)],
      dobInput_type = type_date,
      dobInput_value = [], lifespanInput_value = [], monthsInput_value = [],
      widthInput_value = [], heightInput_value = [],
      generateBtn_loading = False, generateBtn_disabled = False,
      setWallpaperBtn_loading = False, setWallpaperBtn_disabled = True,
      scheduleToggle_checked = False,
      previewPlaceholder_hidden = False, previewImage_src = [], previewImage_hidden = True,
      previewTitle_text = [], previewSubtitle_text = [],
      statElapsed_text = [], statRemaining_text = [], statPercent_text = [],
      toast_className = [''toast''], toastMessage_text = [],
      lifeOnlyElements = [True], monthsOnlyElements = [True],
      window_screen_width = 2560, window_screen_height = 1440, window_devicePixelRatio = 1,
      console = [], invoked = [], pending = [], timers = 0\<rparr>"

definition config0 :: config where
  \<comment> \<open>the configuration of the README\<close>
  "config0 =
     \<lparr>config.dob = Some ''1995-03-20'', lifespan_years = 80, screen_width = 1920,
      screen_height = 1080, next_months = 6, schedule_installed = False,
      config.theme = ''dark'', default_mode = Some ''life''\<rparr>"

definition preview0 :: preview_response where
  "preview0 =
     \<lparr>image_base64 = ''iVBORw0KGgo='', title = ''Life in Weeks'', subtitle = ''Week 1000'',
      elapsed_weeks = 1000, remaining_weeks = 3160, total_weeks = 4160\<rparr>"

text \<open>Three states reached from the loaded example document.\<close>

definition generating :: client where
  \<comment> \<open>a preview has been requested\<close>
  "generating = step (loaded document0) Click_generateBtn"

definition previewed :: client where
  \<comment> \<open>the preview has arrived\<close>
  "previewed = run (loaded document0) [Click_generateBtn, Settle 1 (Resolved_preview preview0)]"

definition saving :: client where
  \<comment> \<open>the wallpaper has been set and \<^verbatim>\<open>save_config\<close> is in flight\<close>
  "saving = run previewed [Click_setWallpaperBtn, Settle 1 (Resolved_message ''done'')]"

section \<open>Rounding to binary64\<close>

lemma bitlen_powi_bounds:
  assumes "0 < p"
  shows "(2::rat) powi (bitlen p - 1) \<le> of_int p" and "of_int p < (2::rat) powi bitlen p"
proof -
  from assms have b1: "1 \<le> bitlen p"
    by (simp add: bitlen_alt_def)
  from bitlen_bounds [OF assms]
  have lo: "2 ^ nat (bitlen p - 1) \<le> p" and hi: "p < 2 ^ nat (bitlen p)"
    by simp_all
  have "(2::rat) powi (bitlen p - 1) = of_int (2 ^ nat (bitlen p - 1))"
    using b1 by (simp add: power_int_nonneg_exp)
  also have "\<dots> \<le> of_int p"
    using lo by (simp only: of_int_le_iff)
  finally show "(2::rat) powi (bitlen p - 1) \<le> of_int p" .
  have "(of_int p :: rat) < of_int (2 ^ nat (bitlen p))"
    using hi by (simp only: of_int_less_iff)
  also have "\<dots> = 2 powi bitlen p"
    using b1 by (simp add: power_int_nonneg_exp)
  finally show "of_int p < (2::rat) powi bitlen p" .
qed

lemma exponent_bounds:
  assumes "0 < x"
  shows "2 powi exponent x \<le> x" and "x < 2 powi (exponent x + 1)"
proof -
  obtain p q where pq: "quotient_of x = (p, q)"
    by force
  have q: "0 < q"
    using pq by (rule quotient_of_denom_pos)
  have x: "x = of_int p / of_int q"
    using pq by (rule quotient_of_div)
  have p: "0 < p"
    using assms q unfolding x by (simp add: zero_less_divide_iff)
  note P = bitlen_powi_bounds [OF p] and Q = bitlen_powi_bounds [OF q]
  let ?d = "bitlen p - bitlen q"
  have qr: "(0::rat) < of_int q"
    using q by simp
  have lo: "2 powi (?d - 1) \<le> x"
  proof -
    have "(2::rat) powi (?d - 1) * of_int q \<le> 2 powi (?d - 1) * 2 powi bitlen q"
      using Q(2) by (intro mult_left_mono) simp_all
    also have "\<dots> = 2 powi (bitlen p - 1)"
      by (simp add: power_int_add [symmetric])
    also have "\<dots> \<le> of_int p"
      by (rule P(1))
    finally show ?thesis
      using qr unfolding x by (simp add: pos_le_divide_eq)
  qed
  have hi: "x < 2 powi (?d + 1)"
  proof -
    have "(of_int p :: rat) < 2 powi bitlen p"
      by (rule P(2))
    also have "\<dots> = 2 powi (?d + 1) * 2 powi (bitlen q - 1)"
      by (simp add: power_int_add [symmetric])
    also have "\<dots> \<le> 2 powi (?d + 1) * of_int q"
      using Q(1) by (intro mult_left_mono) simp_all
    finally show ?thesis
      using qr unfolding x by (simp add: pos_divide_less_eq)
  qed
  have e: "exponent x = (if 2 powi ?d \<le> x then ?d else ?d - 1)"
    by (simp add: exponent_def pq Let_def)
  show "2 powi exponent x \<le> x"
    using lo by (simp add: e)
  show "x < 2 powi (exponent x + 1)"
    using hi by (simp add: e not_le)
qed

lemma powi_less_imp_less:
  assumes "(2::rat) powi a < 2 powi b"
  shows "a < b"
proof (rule ccontr)
  assume "\<not> a < b"
  then have "(2::rat) powi b \<le> 2 powi a"
    by (intro power_int_increasing) simp_all
  with assms show False
    by simp
qed

lemma exponent_unique:
  assumes "0 < x" and "2 powi e \<le> x" and "x < 2 powi (e + 1)"
  shows "exponent x = e"
proof (rule antisym)
  have "(2::rat) powi exponent x < 2 powi (e + 1)"
    using exponent_bounds(1) [OF assms(1)] assms(3) by (rule le_less_trans)
  then have "exponent x < e + 1"
    by (rule powi_less_imp_less)
  then show "exponent x \<le> e"
    by simp
  have "(2::rat) powi e < 2 powi (exponent x + 1)"
    using assms(2) exponent_bounds(2) [OF assms(1)] by (rule le_less_trans)
  then have "e < exponent x + 1"
    by (rule powi_less_imp_less)
  then show "e \<le> exponent x"
    by simp
qed

lemma round_half_even_error: "\<bar>of_int (round_half_even x) - x\<bar> \<le> 1 / 2"
proof -
  have "of_int \<lfloor>x\<rfloor> \<le> x" and "x < of_int \<lfloor>x\<rfloor> + 1"
    by linarith+
  then show ?thesis
    by (auto simp add: round_half_even_def Let_def)
qed

lemma round_half_even_of_int [simp]: "round_half_even (of_int k) = k"
  by (simp add: round_half_even_def)

lemma fl_error:
  assumes "x \<noteq> 0"
  shows "\<bar>fl x - x\<bar> \<le> \<bar>x\<bar> / 2 ^ 53"
proof -
  let ?e = "exponent \<bar>x\<bar>"
  let ?u = "(2::rat) powi (?e - 52)"
  have u: "0 < ?u"
    by simp
  have "fl x - x = (of_int (round_half_even (x / ?u)) - x / ?u) * ?u"
    using assms by (simp add: fl_def Let_def algebra_simps)
  then have "\<bar>fl x - x\<bar> = \<bar>of_int (round_half_even (x / ?u)) - x / ?u\<bar> * ?u"
    using u by (simp add: abs_mult)
  also have "\<dots> \<le> 1 / 2 * ?u"
    using round_half_even_error u by (intro mult_right_mono) simp_all
  also have "\<dots> = 2 powi ?e / 2 ^ 53"
    by (simp add: power_int_diff)
  also have "\<dots> \<le> \<bar>x\<bar> / 2 ^ 53"
    using exponent_bounds(1) [of "\<bar>x\<bar>"] assms by (simp add: divide_right_mono)
  finally show ?thesis .
qed

lemma fl_of_int:
  assumes "\<bar>k\<bar> < 2 ^ 53"
  shows "fl (of_int k) = of_int k"
proof (cases "k = 0")
  case True
  then show ?thesis by (simp add: fl_def)
next
  case False
  let ?x = "of_int k :: rat"
  let ?e = "exponent \<bar>?x\<bar>"
  have pos: "0 < \<bar>?x\<bar>"
    using False by simp
  have "(2::rat) powi ?e \<le> \<bar>?x\<bar>"
    using pos by (rule exponent_bounds(1))
  also have "\<bar>?x\<bar> < 2 powi 53"
  proof -
    have "\<bar>?x\<bar> = of_int \<bar>k\<bar>" by simp
    also have "\<dots> < of_int (2 ^ 53)"
      using assms by (simp only: of_int_less_iff)
    finally show ?thesis by simp
  qed
  finally have "?e < 53"
    by (rule powi_less_imp_less)
  then have e: "0 \<le> 52 - ?e"
    by simp
  have "?x / 2 powi (?e - 52) = ?x * 2 powi (52 - ?e)"
    by (simp add: power_int_diff)
  also have "\<dots> = of_int (k * 2 ^ nat (52 - ?e))"
    using e by (simp add: power_int_nonneg_exp)
  finally have "round_half_even (?x / 2 powi (?e - 52)) = k * 2 ^ nat (52 - ?e)"
    by (simp only: round_half_even_of_int)
  then have "fl ?x = of_int (k * 2 ^ nat (52 - ?e)) * 2 powi (?e - 52)"
    using False by (simp add: fl_def Let_def)
  also have "\<dots> = ?x * (2 powi (52 - ?e) * 2 powi (?e - 52))"
    using e by (simp add: power_int_nonneg_exp)
  also have "\<dots> = ?x"
    by (simp add: power_int_add [symmetric])
  finally show ?thesis .
qed

lemma Number_of_int:
  assumes "\<bar>k\<bar> < 2 ^ 53"
  shows "Number (of_int k) = Num (of_int k)"
proof -
  have "\<bar>of_int k :: rat\<bar> = of_int \<bar>k\<bar>" by simp
  also have "\<dots> < of_int (2 ^ 53)"
    using assms by (simp only: of_int_less_iff)
  also have "\<dots> \<le> (2::rat) ^ 1024"
    by simp
  finally show ?thesis
    by (simp add: Number_def fl_of_int [OF assms])
qed

section \<open>The state machine\<close>

lemmas script_defs =
  updateModeVisibility_def showToast_def toast_timeout_def detectScreenResolution_def
  invoke_def loadConfig_resolved_def loadConfig_rejected_def init_start_def init_continue_def
  generatePreview_start_def generatePreview_finally_def generatePreview_resolved_def
  generatePreview_rejected_def setWallpaper_start_def setWallpaper_finally_def
  saveConfig_start_def saveConfig_rejected_def setWallpaper_after_save_def
  setWallpaper_rejected_def toggleSchedule_start_def toggleSchedule_resolved_def
  toggleSchedule_rejected_def click_modeTab_def click_themeBtn_def set_value_def
  change_input_def change_scheduleToggle_def

lemma length_remove_nth: "i < length xs \<Longrightarrow> length (remove_nth i xs) = length xs - 1"
  by (simp add: remove_nth_def)


lemma remove_nth_append_last [simp]: "remove_nth (length xs) (xs @ [x]) = xs"
  by (simp add: remove_nth_def)

lemma continue_hasPreview:
  "continue t r s0 = Some s' \<Longrightarrow> hasPreview s0 \<Longrightarrow> hasPreview s'"
  by (cases t; cases r) (auto simp add: script_defs Let_def)

lemma continue_gain:
  "continue t r s0 = Some s' \<Longrightarrow> \<not> hasPreview s0 \<Longrightarrow> hasPreview s' \<Longrightarrow>
     t = Await_generate_preview \<and> (\<exists>p. r = Resolved_preview p)"
  by (cases t; cases r) (auto simp add: script_defs Let_def split: if_splits)

lemma hasPreview_step: "hasPreview s \<Longrightarrow> hasPreview (step s e)"
proof (cases e)
  case (Settle i r)
  then show "hasPreview s \<Longrightarrow> hasPreview (step s e)"
    using continue_hasPreview [of "pending s ! i" r "s\<lparr>pending := remove_nth i (pending s)\<rparr>"]
    by (auto simp add: step_def settle_def split: option.splits)
qed (auto simp add: step_def script_defs Let_def split: field.splits)

lemma hasPreview_gain:
  assumes "\<not> hasPreview s" and "hasPreview (step s e)"
  shows "preview_success s e"
proof (cases e)
  case (Settle i r)
  with assms show ?thesis
    using continue_gain [of "pending s ! i" r "s\<lparr>pending := remove_nth i (pending s)\<rparr>"]
    by (auto simp add: step_def settle_def preview_success_def split: option.splits if_splits)
qed (use assms in \<open>auto simp add: step_def script_defs Let_def split: field.splits if_splits\<close>)

lemma preview_success_hasPreview:
  "preview_success s e \<Longrightarrow> hasPreview (step s e)"
  by (auto simp add: preview_success_def step_def settle_def script_defs
      split: event.splits response.splits)

lemma run_Cons [simp]: "run s (e # es) = run (step s e) es"
  by (simp add: run_def)

lemma run_Nil [simp]: "run s [] = s"
  by (simp add: run_def)

lemma hasPreview_run:
  "hasPreview (run s es) \<longleftrightarrow> hasPreview s \<or> 0 < successes s es"
proof (induction es arbitrary: s)
  case Nil
  show ?case by simp
next
  case (Cons e es)
  show ?case
    using hasPreview_step [of s e] hasPreview_gain [of s e] preview_success_hasPreview [of s e]
    by (auto simp add: Cons.IH)
qed

lemma hasPreview_loaded [simp]: "\<not> hasPreview (loaded d)"
  by (simp add: loaded_def script_defs)

lemma frame_loadConfig_resolved [simp]:
  "hasPreview (loadConfig_resolved c s) = hasPreview s"
  "setWallpaperBtn_disabled (loadConfig_resolved c s) = setWallpaperBtn_disabled s"
  "pending (loadConfig_resolved c s) = pending s"
  by (simp_all add: loadConfig_resolved_def updateModeVisibility_def Let_def)

lemma frame_loadConfig_rejected [simp]:
  "hasPreview (loadConfig_rejected e s) = hasPreview s"
  "setWallpaperBtn_disabled (loadConfig_rejected e s) = setWallpaperBtn_disabled s"
  "pending (loadConfig_rejected e s) = pending s"
  by (simp_all add: loadConfig_rejected_def)

lemma frame_init_continue [simp]:
  "hasPreview (init_continue s) = hasPreview s"
  "setWallpaperBtn_disabled (init_continue s) = setWallpaperBtn_disabled s"
  "pending (init_continue s) = pending s"
  by (simp_all add: init_continue_def detectScreenResolution_def showToast_def
      updateModeVisibility_def Let_def)

lemma frame_generatePreview_resolved [simp]:
  "hasPreview (generatePreview_resolved r s)"
  "\<not> setWallpaperBtn_disabled (generatePreview_resolved r s)"
  "pending (generatePreview_resolved r s) = pending s"
  by (simp_all add: generatePreview_resolved_def generatePreview_finally_def showToast_def)

lemma frame_generatePreview_rejected [simp]:
  "hasPreview (generatePreview_rejected e s) = hasPreview s"
  "setWallpaperBtn_disabled (generatePreview_rejected e s) = setWallpaperBtn_disabled s"
  "pending (generatePreview_rejected e s) = pending s"
  by (simp_all add: generatePreview_rejected_def generatePreview_finally_def showToast_def)

lemma frame_saveConfig_start [simp]:
  "hasPreview (saveConfig_start s) = hasPreview s"
  "setWallpaperBtn_disabled (saveConfig_start s) = setWallpaperBtn_disabled s"
  "pending (saveConfig_start s) = pending s @ [Await_save_config]"
  by (simp_all add: saveConfig_start_def invoke_def)

lemma frame_saveConfig_rejected [simp]:
  "hasPreview (saveConfig_rejected e s) = hasPreview s"
  "setWallpaperBtn_disabled (saveConfig_rejected e s) = setWallpaperBtn_disabled s"
  "pending (saveConfig_rejected e s) = pending s"
  by (simp_all add: saveConfig_rejected_def)

lemma frame_setWallpaper_after_save [simp]:
  "hasPreview (setWallpaper_after_save s) = hasPreview s"
  "\<not> setWallpaperBtn_disabled (setWallpaper_after_save s)"
  "pending (setWallpaper_after_save s) = pending s"
  by (simp_all add: setWallpaper_after_save_def setWallpaper_finally_def showToast_def)

lemma frame_setWallpaper_rejected [simp]:
  "hasPreview (setWallpaper_rejected e s) = hasPreview s"
  "\<not> setWallpaperBtn_disabled (setWallpaper_rejected e s)"
  "pending (setWallpaper_rejected e s) = pending s"
  by (simp_all add: setWallpaper_rejected_def setWallpaper_finally_def showToast_def)

lemma frame_toggleSchedule_resolved [simp]:
  "hasPreview (toggleSchedule_resolved m s) = hasPreview s"
  "setWallpaperBtn_disabled (toggleSchedule_resolved m s) = setWallpaperBtn_disabled s"
  "pending (toggleSchedule_resolved m s) = pending s"
  by (simp_all add: toggleSchedule_resolved_def showToast_def)

lemma frame_toggleSchedule_rejected [simp]:
  "hasPreview (toggleSchedule_rejected b e s) = hasPreview s"
  "setWallpaperBtn_disabled (toggleSchedule_rejected b e s) = setWallpaperBtn_disabled s"
  "pending (toggleSchedule_rejected b e s) = pending s"
  by (simp_all add: toggleSchedule_rejected_def showToast_def)





lemma buildRequest_buttons [simp]:
  "buildRequest (s\<lparr>generateBtn_loading := a, generateBtn_disabled := b\<rparr>) = buildRequest s"
  "buildRequest (s\<lparr>setWallpaperBtn_loading := a, setWallpaperBtn_disabled := b\<rparr>) = buildRequest s"
  by (simp_all add: buildRequest_def)

lemma frame_generatePreview_start [simp]:
  "hasPreview (generatePreview_start s) = hasPreview s"
  "setWallpaperBtn_disabled (generatePreview_start s) = setWallpaperBtn_disabled s"
  "pending (generatePreview_start s) = pending s @ [Await_generate_preview]"
  by (simp_all add: generatePreview_start_def invoke_def Let_def)

lemma frame_setWallpaper_start [simp]:
  "hasPreview (setWallpaper_start s) = hasPreview s"
  "setWallpaperBtn_disabled (setWallpaper_start s)"
  "pending (setWallpaper_start s) = pending s @ [Await_set_wallpaper_cmd]"
  by (simp_all add: setWallpaper_start_def invoke_def Let_def)

lemma frame_loaded [simp]:
  "setWallpaperBtn_disabled (loaded d) = setWallpaperBtn_disabled d"
  "generateBtn_disabled (loaded d) = generateBtn_disabled d"
  "pending (loaded d) = [Await_get_config]"
  "invoked (loaded d) = [get_config]"
  by (simp_all add: loaded_def init_start_def invoke_def)

lemma generating_facts:
  "pending generating = [Await_get_config, Await_generate_preview]"
  "\<not> hasPreview generating"
  by (simp_all add: generating_def step_def document0_def)

lemma previewed_facts:
  "pending previewed = [Await_get_config]"
  "\<not> setWallpaperBtn_disabled previewed"
  "hasPreview previewed"
  by (simp_all add: previewed_def step_def settle_def document0_def remove_nth_def)

lemma saving_facts:
  "pending saving = [Await_get_config, Await_save_config]"
  by (simp_all add: saving_def previewed_facts step_def settle_def remove_nth_def)

section \<open>Numbers written and read as strings\<close>

lemma toString_int [simp]: "toString (int n) = dec n"
  by (simp add: toString_def)

lemma digit_cases:
  assumes "d < (10::nat)"
  shows "d = 0 \<or> d = 1 \<or> d = 2 \<or> d = 3 \<or> d = 4 \<or> d = 5 \<or> d = 6 \<or> d = 7 \<or> d = 8 \<or> d = 9"
  using assms by arith

lemma of_char_digit_char:
  assumes "d < 10"
  shows "(of_char (digit_char d) :: int) = 48 + int d"
  using digit_cases [OF assms] by (auto simp add: digit_char_def)

lemma is_digit_iff: "is_digit c \<longleftrightarrow> 48 \<le> (of_char c :: int) \<and> (of_char c :: int) \<le> 57"
proof -
  have "(of_char c :: int) = int (of_char c)"
    by (simp add: of_char_def)
  then show ?thesis
    by (simp add: is_digit_def)
qed

lemma digit_of_10: "digit_of 10 c = (if is_digit c then Some (of_char c - 48) else None)"
  by (simp add: digit_of_def is_digit_iff Let_def)

lemma digit_of_10_Some [simp]: "(\<exists>y. digit_of 10 c = Some y) \<longleftrightarrow> is_digit c"
  by (simp add: digit_of_10)

lemma is_digit_digit_char [simp]: "d < 10 \<Longrightarrow> is_digit (digit_char d)"
  by (simp add: is_digit_iff of_char_digit_char)

lemma digit_of_digit_char [simp]: "d < 10 \<Longrightarrow> digit_of 10 (digit_char d) = Some (int d)"
  by (simp add: digit_of_10 of_char_digit_char)

lemma digits_value_snoc:
  "digits_value R (xs @ [c]) = digits_value R xs * R + the (digit_of R c)"
  by (simp add: digits_value_def)

lemma digits_value_Nil [simp]: "digits_value R [] = 0"
  by (simp add: digits_value_def)

lemma dec_not_Nil [simp]: "dec n \<noteq> []"
  by (subst dec.simps) simp

lemma dec_digits: "list_all is_digit (dec n)"
proof (induction n rule: dec.induct)
  case (1 n)
  show ?case
  proof (cases "n < 10")
    case True
    then show ?thesis by (subst dec.simps) simp
  next
    case False
    with 1 show ?thesis by (subst dec.simps) simp
  qed
qed

lemma digits_value_dec: "digits_value 10 (dec n) = int n"
proof (induction n rule: dec.induct)
  case (1 n)
  show ?case
  proof (cases "n < 10")
    case True
    then show ?thesis
      by (subst dec.simps) (simp add: digits_value_snoc [of 10 "[]", simplified])
  next
    case False
    with 1 have "digits_value 10 (dec (n div 10)) = int (n div 10)"
      by simp
    with False show ?thesis
      by (subst dec.simps) (simp add: digits_value_snoc zdiv_int zmod_int)
  qed
qed

lemma is_digit_not_space: "is_digit c \<Longrightarrow> \<not> is_space c"
  by (auto simp add: is_digit_iff is_space_def)

lemma is_digit_not_sign: "is_digit c \<Longrightarrow> c \<noteq> CHR ''+'' \<and> c \<noteq> CHR ''-''"
  by (auto simp add: is_digit_iff)

lemma is_digit_not_x: "is_digit c \<Longrightarrow> c \<noteq> CHR ''x'' \<and> c \<noteq> CHR ''X''"
  by (auto simp add: is_digit_iff)

lemma takeWhile_all: "list_all P xs \<Longrightarrow> takeWhile P xs = xs"
  by (induction xs) simp_all

lemma parseInt_digits:
  assumes "s \<noteq> []" and "list_all is_digit s"
  shows "parseInt s = Number (of_int (digits_value 10 s))"
proof -
  obtain c cs where s: "s = c # cs"
    using assms(1) by (cases s) auto
  have c: "is_digit c" and cs: "list_all is_digit cs"
    using assms(2) by (simp_all add: s)
  have drop: "dropWhile is_space s = s"
    using is_digit_not_space [OF c] by (simp add: s)
  have nohex: "take 2 s \<noteq> ''0x'' \<and> take 2 s \<noteq> ''0X''"
  proof (cases cs)
    case Nil
    then show ?thesis by (simp add: s)
  next
    case (Cons b bs)
    with cs have "is_digit b" by simp
    from is_digit_not_x [OF this] show ?thesis
      by (simp add: s Cons)
  qed
  have tw: "takeWhile is_digit s = s"
    using assms(2) by (rule takeWhile_all)
  have hd: "hd s \<noteq> CHR ''+''" "hd s \<noteq> CHR ''-''"
    using is_digit_not_sign [OF c] by (simp_all add: s)
  show ?thesis
    using nohex assms(1) by (simp add: parseInt_def drop Let_def hd tw)
qed

lemma parseInt_dec:
  assumes "n < 2 ^ 53"
  shows "parseInt (dec n) = Num (of_nat n)"
proof -
  have "\<bar>int n\<bar> < 2 ^ 53"
    using assms by (simp add: nat_less_numeral_power_cancel_iff [symmetric] del: nat_less_numeral_power_cancel_iff) 
  then have "Number (of_int (int n)) = Num (of_int (int n))"
    by (rule Number_of_int)
  then show ?thesis
    by (simp add: parseInt_digits dec_digits digits_value_dec)
qed

lemma parseInt_Nil [simp]: "parseInt [] = NaN"
  by (simp add: parseInt_def)

lemma parseInt_no_number:
  assumes "\<not> is_space c" and "c \<noteq> CHR ''+''" and "c \<noteq> CHR ''-''" and "\<not> is_digit c"
  shows "parseInt (c # cs) = NaN"
proof -
  have "c \<noteq> CHR ''0''"
    using assms(4) by (auto simp add: is_digit_iff)
  then show ?thesis
    using assms by (simp add: parseInt_def Let_def)
qed

lemma digit_nonzero:
  assumes "is_digit c" and "c \<noteq> CHR ''0''"
  shows "0 < the (digit_of 10 c)"
proof -
  have "(of_char c :: int) \<noteq> of_char CHR ''0''"
    using assms(2) by (simp only: of_char_eq_iff not_False_eq_True)
  then have "(of_char c :: int) \<noteq> 48"
    by simp
  with assms(1) show ?thesis
    by (simp add: digit_of_10 is_digit_iff)
qed

lemma digit_nonneg: "is_digit c \<Longrightarrow> 0 \<le> the (digit_of 10 c)"
  by (simp add: digit_of_10 is_digit_iff)

lemma digits_value_nonneg: "list_all is_digit s \<Longrightarrow> 0 \<le> digits_value 10 s"
  by (induction s rule: rev_induct) (simp_all add: digits_value_snoc digit_nonneg)

lemma digits_value_pos:
  assumes "list_all is_digit s" and "\<not> list_all (\<lambda>c. c = CHR ''0'') s"
  shows "0 < digits_value 10 s"
  using assms
proof (induction s rule: rev_induct)
  case Nil
  then show ?case by simp
next
  case (snoc c s)
  then have c: "is_digit c" and s: "list_all is_digit s"
    by simp_all
  show ?case
  proof (cases "list_all (\<lambda>c. c = CHR ''0'') s")
    case True
    with snoc.prems(2) have "c \<noteq> CHR ''0''"
      by simp
    from digit_nonzero [OF c this] digits_value_nonneg [OF s] show ?thesis
      by (simp add: digits_value_snoc)
  next
    case False
    from snoc.IH [OF s False] digit_nonneg [OF c] show ?thesis
      by (simp add: digits_value_snoc)
  qed
qed

lemma parseInt_positive_integer_string:
  assumes "positive_integer_string v" and "digits_value 10 v < 2 ^ 53"
  shows "0 < digits_value 10 v" and "or_null (parseInt v) = Some (Num (of_int (digits_value 10 v)))"
proof -
  from assms(1) have ne: "v \<noteq> []" and dg: "list_all is_digit v"
    and nz: "\<not> list_all (\<lambda>c. c = CHR ''0'') v"
    by (simp_all add: positive_integer_string_def)
  show pos: "0 < digits_value 10 v"
    using dg nz by (rule digits_value_pos)
  with assms(2) have "\<bar>digits_value 10 v\<bar> < 2 ^ 53"
    by simp
  then have "Number (of_int (digits_value 10 v)) = Num (of_int (digits_value 10 v))"
    by (rule Number_of_int)
  with pos show "or_null (parseInt v) = Some (Num (of_int (digits_value 10 v)))"
    by (simp add: parseInt_digits [OF ne dg] or_null_def)
qed

lemma parseInt_minus_5: "parseInt ''-5'' = Num (- 5)"
  using Number_of_int [of "- 5"]
  by (simp add: parseInt_def is_space_def digit_of_def digits_value_def Let_def)

lemma parseInt_12abc: "parseInt ''12abc'' = Num 12"
  using Number_of_int [of 12]
  by (simp add: parseInt_def is_space_def digit_of_def digits_value_def Let_def)

section \<open>Initialisation\<close>

lemma Math_round_of_int [simp]: "Math_round (of_int k) = k"
  unfolding Math_round_def by (rule floor_unique) simp_all

lemma Math_round_of_nat [simp]: "Math_round (of_nat n) = int n"
  using Math_round_of_int [of "int n"] by simp

lemma fl_of_nat: "n < 2 ^ 53 \<Longrightarrow> fl (of_nat n) = of_nat n"
  using fl_of_int [of "int n"] by simp

lemma frame_detectScreenResolution [simp]:
  "currentMode (detectScreenResolution s) = currentMode s"
  "currentTheme (detectScreenResolution s) = currentTheme s"
  "dobInput_value (detectScreenResolution s) = dobInput_value s"
  "lifespanInput_value (detectScreenResolution s) = lifespanInput_value s"
  "monthsInput_value (detectScreenResolution s) = monthsInput_value s"
  "widthInput_value (detectScreenResolution s) =
     toString (Math_round (fl (of_nat (window_screen_width s) * window_devicePixelRatio s)))"
  "heightInput_value (detectScreenResolution s) =
     toString (Math_round (fl (of_nat (window_screen_height s) * window_devicePixelRatio s)))"
  "toastMessage_text (detectScreenResolution s) = ''Screen resolution detected''"
  "toast_className (detectScreenResolution s) = [''toast'', ''show'', ''success'']"
  by (simp_all add: detectScreenResolution_def showToast_def Let_def)

lemma frame_updateModeVisibility [simp]:
  "currentMode (updateModeVisibility s) = currentMode s"
  "currentTheme (updateModeVisibility s) = currentTheme s"
  "dobInput_value (updateModeVisibility s) = dobInput_value s"
  "lifespanInput_value (updateModeVisibility s) = lifespanInput_value s"
  "monthsInput_value (updateModeVisibility s) = monthsInput_value s"
  "window_screen_width (updateModeVisibility s) = window_screen_width s"
  "window_screen_height (updateModeVisibility s) = window_screen_height s"
  "window_devicePixelRatio (updateModeVisibility s) = window_devicePixelRatio s"
  by (simp_all add: updateModeVisibility_def Let_def)

lemma loadConfig_resolved_fields [simp]:
  "currentTheme (loadConfig_resolved c s) = config.theme c"
  "currentMode (loadConfig_resolved c s) =
     (if truthy (default_mode c) then the (default_mode c) else currentMode s)"
  "dobInput_value (loadConfig_resolved c s) =
     (if truthy (config.dob c) then sanitize (dobInput_type s) (the (config.dob c))
      else dobInput_value s)"
  "lifespanInput_value (loadConfig_resolved c s) = dec (lifespan_years c)"
  "monthsInput_value (loadConfig_resolved c s) = dec (next_months c)"
  "widthInput_value (loadConfig_resolved c s) = dec (screen_width c)"
  "heightInput_value (loadConfig_resolved c s) = dec (screen_height c)"
  "window_screen_width (loadConfig_resolved c s) = window_screen_width s"
  "window_screen_height (loadConfig_resolved c s) = window_screen_height s"
  "window_devicePixelRatio (loadConfig_resolved c s) = window_devicePixelRatio s"
  by (simp_all add: loadConfig_resolved_def updateModeVisibility_def Let_def)

lemma loadConfig_rejected_fields [simp]:
  "window_screen_width (loadConfig_rejected e s) = window_screen_width s"
  "window_screen_height (loadConfig_rejected e s) = window_screen_height s"
  "window_devicePixelRatio (loadConfig_rejected e s) = window_devicePixelRatio s"
  by (simp_all add: loadConfig_rejected_def)

lemma loaded_screen [simp]:
  "window_screen_width (loaded d) = window_screen_width d"
  "window_screen_height (loaded d) = window_screen_height d"
  "window_devicePixelRatio (loaded d) = window_devicePixelRatio d"
  "dobInput_value (loaded d) = dobInput_value d"
  "dobInput_type (loaded d) = dobInput_type d"
  "currentMode (loaded d) = ''year-end''"
  "currentTheme (loaded d) = ''dark''"
  by (simp_all add: loaded_def init_start_def invoke_def)

lemma started_resolved:
  "started d (Resolved_config c) =
     init_continue (loadConfig_resolved c ((loaded d)\<lparr>pending := []\<rparr>))"
  by (simp add: started_def step_def settle_def remove_nth_def)

lemma started_rejected:
  "started d (Rejected e) = init_continue (loadConfig_rejected e ((loaded d)\<lparr>pending := []\<rparr>))"
  by (simp add: started_def step_def settle_def remove_nth_def)

lemma truthy_Some: "truthy v \<Longrightarrow> or_null_string (the v) = v"
  by (cases v) (simp_all add: truthy_def or_null_string_def)

lemma or_null_parseInt_dec:
  "0 < n \<Longrightarrow> n < 2 ^ 53 \<Longrightarrow> or_null (parseInt (dec n)) = Some (Num (of_nat n))"
  by (simp add: parseInt_dec or_null_def)

lemma detect_ratio_1:
  assumes "r = 1" and "w < 2 ^ 53"
  shows "toString (Math_round (fl (of_nat w * r))) = dec w"
  using assms by (simp add: fl_of_nat)

lemma dec_2560: "dec 2560 = ''2560''"
  by (simp add: dec.simps digit_char_def)

lemma dec_1440: "dec 1440 = ''1440''"
  by (simp add: dec.simps digit_char_def)

lemma document0_screen:
  "toString (Math_round (fl (of_nat (window_screen_width document0)
      * window_devicePixelRatio document0))) = dec 2560"
  "toString (Math_round (fl (of_nat (window_screen_height document0)
      * window_devicePixelRatio document0))) = dec 1440"
  using detect_ratio_1 [of 1 2560] detect_ratio_1 [of 1 1440]
  by (simp_all add: document0_def)

lemma is_digit_not_newline: "is_digit c \<Longrightarrow> c \<noteq> CHR 0x0A \<and> c \<noteq> CHR 0x0D"
  by (auto simp add: is_digit_iff)

lemma valid_date_string_parts:
  assumes "valid_date_string v"
  shows "4 \<le> length (takeWhile is_digit v)" and "length (dropWhile is_digit v) = 6"
    and "dropWhile is_digit v ! 0 = CHR ''-''" and "is_digit (dropWhile is_digit v ! 1)"
    and "is_digit (dropWhile is_digit v ! 2)" and "dropWhile is_digit v ! 3 = CHR ''-''"
    and "is_digit (dropWhile is_digit v ! 4)" and "is_digit (dropWhile is_digit v ! 5)"
  using assms unfolding valid_date_string_def Let_def by blast+

lemma valid_date_string_chars:
  assumes "valid_date_string v"
  shows "v \<noteq> []" and "\<forall>c\<in>set v. c \<noteq> CHR 0x0A \<and> c \<noteq> CHR 0x0D"
proof -
  define y where "y = takeWhile is_digit v"
  define r where "r = dropWhile is_digit v"
  note P = valid_date_string_parts [OF assms, folded y_def r_def]
  from P(1) have "y \<noteq> []"
    by auto
  then show "v \<noteq> []"
    by (auto simp add: y_def)
  have v: "set v = set y \<union> set r"
  proof -
    have "set v = set (y @ r)"
      unfolding y_def r_def by (simp only: takeWhile_dropWhile_id)
    then show ?thesis
      by (simp only: set_append)
  qed
  have ys: "c \<noteq> CHR 0x0A \<and> c \<noteq> CHR 0x0D" if "c \<in> set y" for c
  proof -
    from that have "is_digit c"
      unfolding y_def by (rule set_takeWhileD [THEN conjunct2])
    then show ?thesis
      by (rule is_digit_not_newline)
  qed
  from P(2) obtain a b c d e f where r: "r = [a, b, c, d, e, f]"
    by (auto simp add: length_Suc_conv numeral_eq_Suc)
  from P(3-8) have "a = CHR ''-''" "is_digit b" "is_digit c" "d = CHR ''-''" "is_digit e"
    "is_digit f"
    unfolding r by simp_all
  then have rs: "x \<noteq> CHR 0x0A \<and> x \<noteq> CHR 0x0D" if "x \<in> set r" for x
    using that is_digit_not_newline [of b] is_digit_not_newline [of c]
      is_digit_not_newline [of e] is_digit_not_newline [of f]
    unfolding r by auto
  show "\<forall>c\<in>set v. c \<noteq> CHR 0x0A \<and> c \<noteq> CHR 0x0D"
    unfolding v using ys rs by blast
qed

lemma sanitize_valid_date:
  assumes "valid_date_string v"
  shows "sanitize ty v = v"
proof (cases ty)
  case type_text
  with valid_date_string_chars(2) [OF assms] show ?thesis
    by (simp add: sanitize_def filter_id_conv)
next
  case type_date
  with assms show ?thesis
    by (simp add: sanitize_def)
qed

lemma valid_date_1995_03_20: "valid_date_string ''1995-03-20''"
  by code_simp

text \<open>A line feed as the date of birth does not survive the input.\<close>

lemma dob_line_feed:
  "dob (buildRequest (started document0
     (Resolved_config (config0\<lparr>config.dob := Some [CHR 0x0A]\<rparr>)))) = None"
  "dob (buildRequest (started (document0\<lparr>dobInput_type := type_text\<rparr>)
     (Resolved_config (config0\<lparr>config.dob := Some [CHR 0x0A]\<rparr>)))) = None"
  by (simp_all add: buildRequest_def started_resolved init_continue_def truthy_def
      sanitize_def valid_date_string_def or_null_string_def document0_def config0_def)

section \<open>The percentage of a preview\<close>

lemma fl_pos:
  assumes "0 < x"
  shows "0 < fl x"
proof -
  have "\<bar>fl x - x\<bar> \<le> \<bar>x\<bar> / 2 ^ 53"
    using assms by (intro fl_error) simp
  moreover have "x / 2 ^ 53 < x"
    using assms by (simp add: field_simps)
  ultimately show ?thesis
    using assms by linarith
qed

lemma percent_error:
  assumes t: "0 < t" and e: "e < 2 ^ 43"
  shows "\<bar>fl (fl (of_nat e / of_nat t) * 100) - 100 * of_nat e / of_nat t\<bar>
           < 1 / (2 * of_nat t)"
proof (cases "e = 0")
  case True
  with t show ?thesis
    by (simp add: fl_def)
next
  case False
  define q :: rat where "q = of_nat e / of_nat t"
  define y1 where "y1 = fl q"
  define y where "y = fl (y1 * 100)"
  define u :: rat where "u = 2 ^ 53"
  have u: "1 \<le> u"
    by (simp add: u_def)
  have q: "0 < q"
    using False t by (simp add: q_def)
  have y1: "0 < y1"
    unfolding y1_def using q by (rule fl_pos)
  have e1: "\<bar>y1 - q\<bar> \<le> q / u"
  proof -
    have "q \<noteq> 0"
      using q by simp
    from fl_error [OF this] show ?thesis
      unfolding abs_of_pos [OF q] y1_def u_def .
  qed
  have e2: "\<bar>y - y1 * 100\<bar> \<le> y1 * 100 / u"
  proof -
    have pos: "0 < y1 * 100"
      using y1 by simp
    then have "y1 * 100 \<noteq> 0"
      by simp
    from fl_error [OF this] show ?thesis
      unfolding abs_of_pos [OF pos] y_def u_def .
  qed
  have qu: "q / u \<le> q"
    using q u by (simp add: field_simps)
  have y1_le: "y1 \<le> 2 * q"
    using e1 qu by linarith
  have "y1 * 100 / u \<le> (2 * q) * 100 / u"
    using y1_le u by (intro divide_right_mono) simp_all
  then have e3: "y1 * 100 / u \<le> 200 * (q / u)"
    by simp
  define a1 where "a1 = \<bar>y1 - q\<bar>"
  define a2 where "a2 = \<bar>y - y1 * 100\<bar>"
  have "y - 100 * q = (y - y1 * 100) + 100 * (y1 - q)"
    by simp
  then have "\<bar>y - 100 * q\<bar> \<le> \<bar>y - y1 * 100\<bar> + \<bar>100 * (y1 - q)\<bar>"
    by (simp only: abs_triangle_ineq)
  also have "\<dots> = a2 + 100 * a1"
    by (simp only: abs_mult abs_numeral a1_def a2_def)
  also have "\<dots> \<le> 300 * (q / u)"
    using e1 e2 e3 unfolding a1_def [symmetric] a2_def [symmetric] by linarith
  also have "\<dots> < 1 / (2 * of_nat t)"
  proof -
    have "600 * e < 2 ^ 10 * 2 ^ 43"
      using e by simp
    then have "600 * e < 2 ^ 53"
      by simp
    then have "(of_nat (600 * e) :: rat) < of_nat (2 ^ 53)"
      by (simp only: of_nat_less_iff)
    then have "600 * (of_nat e :: rat) < u"
      by (simp add: u_def)
    then show ?thesis
      using t u by (simp add: q_def field_simps)
  qed
  finally show ?thesis
    by (simp add: y_def y1_def q_def)
qed

lemma percent_nearest:
  assumes t: "0 < t" and e: "e < 2 ^ 43"
  shows "\<bar>of_int (percent e t) - 100 * of_nat e / of_nat t\<bar> \<le> (1 / 2 :: rat)"
proof -
  let ?x = "100 * of_nat e / of_nat t :: rat"
  let ?y = "fl (fl (of_nat e / of_nat t) * 100)"
  let ?p = "percent e t"
  have p: "?p = \<lfloor>?y + 1 / 2\<rfloor>"
    using t by (simp add: percent_def Math_round_def)
  have py: "\<bar>of_int ?p - ?y\<bar> \<le> 1 / 2"
    unfolding p by linarith
  have yx: "\<bar>?y - ?x\<bar> < 1 / (2 * of_nat t)"
    using t e by (rule percent_error)
  have px: "\<bar>of_int ?p - ?x\<bar> < 1 / 2 + 1 / (2 * of_nat t)"
    using py yx by linarith
  define a where "a = \<bar>of_int ?p - ?x\<bar>"
  define z where "z = 2 * int t * ?p - 200 * int e"
  have tr: "(0::rat) < of_nat t"
    using t by simp
  have "(of_int z :: rat) = 2 * of_nat t * (of_int ?p - ?x)"
    using t by (simp add: z_def field_simps)
  then have z: "(of_int \<bar>z\<bar> :: rat) = 2 * of_nat t * a"
    using tr by (simp add: a_def abs_mult)
  have "a < 1 / 2 + 1 / (2 * of_nat t)"
    using px by (simp only: a_def)
  then have "2 * of_nat t * a < 2 * of_nat t * (1 / 2 + 1 / (2 * of_nat t))"
    using tr by (intro mult_strict_left_mono) simp_all
  also have "\<dots> = of_int (int t + 1)"
    using t by (simp add: field_simps)
  finally have "(of_int \<bar>z\<bar> :: rat) < of_int (int t + 1)"
    by (simp only: z)
  then have "\<bar>z\<bar> < int t + 1"
    by (simp only: of_int_less_iff)
  then have "\<bar>z\<bar> \<le> int t"
    by simp
  then have "(of_int \<bar>z\<bar> :: rat) \<le> of_int (int t)"
    by (simp only: of_int_le_iff)
  then have "2 * of_nat t * a \<le> (of_int (int t) :: rat)"
    by (simp only: z)
  then have "of_nat t * (2 * a) \<le> of_nat t * (1 :: rat)"
    by (simp add: mult_ac)
  then have "2 * a \<le> 1"
    using tr by (simp only: mult_le_cancel_left_pos)
  then show ?thesis
    by (simp add: a_def)
qed

lemma percent_round:
  assumes t: "0 < t" and e: "e < 2 ^ 43"
    and tie: "frac (100 * of_nat e / of_nat t :: rat) \<noteq> 1 / 2"
  shows "percent e t = round (100 * of_nat e / of_nat t :: rat)"
proof -
  let ?x = "100 * of_nat e / of_nat t :: rat"
  let ?p = "percent e t"
  have n: "\<bar>of_int ?p - ?x\<bar> \<le> 1 / 2"
    using t e by (rule percent_nearest)
  have "?x + 1 / 2 \<noteq> of_int ?p + 1"
  proof
    assume "?x + 1 / 2 = of_int ?p + 1"
    then have x: "?x = of_int ?p + 1 / 2"
      by simp
    have "frac ?x = 1 / 2"
      unfolding x by (simp add: frac_unique_iff)
    with tie show False by simp
  qed
  with n have "of_int ?p \<le> ?x + 1 / 2" and "?x + 1 / 2 < of_int ?p + 1"
    by linarith+
  then have "\<lfloor>?x + 1 / 2\<rfloor> = ?p"
    by (rule floor_unique)
  then show ?thesis
    by (simp add: round_def)
qed

lemma percent_23_40: "percent 23 40 = 57"
  by (simp add: percent_def; code_simp)

lemma percent_1300_4160: "percent 1300 4160 = 31"
  by (simp add: percent_def; code_simp)

text \<open>The values binary64 gives: \<^verbatim>\<open>0.1\<close>, \<^verbatim>\<open>23 / 40\<close> and \<^verbatim>\<open>(23 / 40) * 100\<close>.\<close>

lemma fl_one_tenth: "fl (1 / 10) = 3602879701896397 / 36028797018963968"
  by code_simp

lemma fl_23_40: "fl (23 / 40) = 2589569785738035 / 4503599627370496"
  by code_simp

lemma fl_23_40_100: "fl (fl (23 / 40) * 100) = 8092405580431359 / 140737488355328"
  by code_simp

section \<open>Claims about the request builder\<close>

text \<open>
  Claim C1, as stated: a numeric field of the request is \<^verbatim>\<open>null\<close> when the input is empty or
  is not a positive integer string, and \<^verbatim>\<open>parseInt\<close> of the input otherwise.  The inputs
  \<^verbatim>\<open>-5\<close> and \<^verbatim>\<open>12abc\<close> are not positive integer strings, and the fields built from them are
  \<open>-5\<close> and \<open>12\<close>.
\<close>

theorem C1_numeric_fields_counterexample:
  "\<not> positive_integer_string ''-5'' \<and>
   lifespan (buildRequest (document0\<lparr>lifespanInput_value := ''-5''\<rparr>)) = Some (Num (- 5)) \<and>
   \<not> positive_integer_string ''12abc'' \<and>
   width (buildRequest (document0\<lparr>widthInput_value := ''12abc''\<rparr>)) = Some (Num 12)"
  by (simp add: positive_integer_string_def is_digit_def buildRequest_def parseInt_minus_5
      parseInt_12abc or_null_def)

text \<open>
  Claim C1, amended.  Each numeric field of the request is \<^verbatim>\<open>parseInt(value) || null\<close>: it is
  \<^verbatim>\<open>null\<close> exactly when \<^verbatim>\<open>parseInt\<close> gives \<^verbatim>\<open>NaN\<close> or zero, and the number \<^verbatim>\<open>parseInt\<close> gives
  otherwise.  The empty string, and a string that begins with a character that is not
  white space, a sign or a digit, give \<^verbatim>\<open>null\<close>; a positive integer string below \<open>2\<^sup>5\<^sup>3\<close>
  gives the integer it denotes.  The builder is a total function with no error result:
  no input makes it fail.
\<close>

theorem C1_numeric_fields:
  "lifespan (buildRequest s) = or_null (parseInt (lifespanInput_value s)) \<and>
   months (buildRequest s) = or_null (parseInt (monthsInput_value s)) \<and>
   width (buildRequest s) = or_null (parseInt (widthInput_value s)) \<and>
   height (buildRequest s) = or_null (parseInt (heightInput_value s)) \<and>
   or_null (parseInt v) =
     (if parseInt v = NaN \<or> parseInt v = Num 0 then None else Some (parseInt v)) \<and>
   or_null (parseInt []) = None \<and>
   (\<not> is_space c \<and> c \<noteq> CHR ''+'' \<and> c \<noteq> CHR ''-'' \<and> \<not> is_digit c \<longrightarrow>
      or_null (parseInt (c # cs)) = None) \<and>
   (positive_integer_string v \<and> digits_value 10 v < 2 ^ 53 \<longrightarrow>
      0 < digits_value 10 v \<and>
      or_null (parseInt v) = Some (Num (of_int (digits_value 10 v))))"
  using parseInt_positive_integer_string [of v] parseInt_no_number [of c cs]
  by (simp add: buildRequest_def or_null_def)

theorem C1_numeric_fields_witness:
  "positive_integer_string ''80'' \<and> digits_value 10 ''80'' = 80 \<and>
   or_null (parseInt ''80'') = Some (Num 80) \<and>
   \<not> is_digit CHR ''a'' \<and> or_null (parseInt ''abc'') = None"
proof -
  have p: "positive_integer_string ''80''"
    by (simp add: positive_integer_string_def is_digit_def)
  have v: "digits_value 10 ''80'' = 80"
    by (simp add: digits_value_def digit_of_def)
  have a: "\<not> is_space CHR ''a'' \<and> \<not> is_digit CHR ''a''"
    by (simp add: is_space_def is_digit_def)
  from C1_numeric_fields [of document0 "''80''" "CHR ''a''" "''bc''"] p v a show ?thesis
    by (auto split: if_splits)
qed

text \<open>
  Claim C2, as stated: the request built after \<^verbatim>\<open>init\<close> has loaded a configuration carries
  every field of the configuration unmodified.  With the configuration of the README
  (1920 by 1080) on a screen of 2560 by 1440, the request carries 2560 and 1440.
\<close>

theorem C2_config_round_trip_counterexample:
  "screen_width config0 = 1920 \<and>
   width (buildRequest (started document0 (Resolved_config config0))) = Some (Num 2560) \<and>
   screen_height config0 = 1080 \<and>
   height (buildRequest (started document0 (Resolved_config config0))) = Some (Num 1440)"
  using or_null_parseInt_dec [of 2560] or_null_parseInt_dec [of 1440]
  by (simp add: config0_def buildRequest_def started_resolved init_continue_def document0_screen)

text \<open>
  Claim C2, amended.  After \<^verbatim>\<open>init\<close> has loaded the configuration \<open>c\<close>, the request carries
  the theme of \<open>c\<close>; its default mode when it is set (not \<^verbatim>\<open>null\<close>, not empty); its date of
  birth as the date-of-birth input holds it after the assignment, which is the date of
  birth itself when that is a valid date string; its lifespan and its months when they
  are positive (and below \<open>2\<^sup>5\<^sup>3\<close>).  The width and the height of the request are not those
  of \<open>c\<close>: they are read back from the inputs that \<^verbatim>\<open>detectScreenResolution\<close> has filled
  from the screen.  A click on the generate button sends exactly this request to
  \<^verbatim>\<open>generate_preview\<close>.
\<close>

theorem C2_config_round_trip:
  "theme (buildRequest (started d (Resolved_config c))) = config.theme c \<and>
   (truthy (default_mode c) \<longrightarrow>
      Some (mode (buildRequest (started d (Resolved_config c)))) = default_mode c) \<and>
   (truthy (config.dob c) \<longrightarrow>
      dob (buildRequest (started d (Resolved_config c)))
        = or_null_string (sanitize (dobInput_type d) (the (config.dob c)))) \<and>
   (config.dob c = Some x \<and> valid_date_string x \<longrightarrow>
      dob (buildRequest (started d (Resolved_config c))) = Some x) \<and>
   (0 < lifespan_years c \<and> lifespan_years c < 2 ^ 53 \<longrightarrow>
      lifespan (buildRequest (started d (Resolved_config c)))
        = Some (Num (of_nat (lifespan_years c)))) \<and>
   (0 < next_months c \<and> next_months c < 2 ^ 53 \<longrightarrow>
      months (buildRequest (started d (Resolved_config c)))
        = Some (Num (of_nat (next_months c)))) \<and>
   width (buildRequest (started d (Resolved_config c)))
     = or_null (parseInt (toString (Math_round
         (fl (of_nat (window_screen_width d) * window_devicePixelRatio d))))) \<and>
   height (buildRequest (started d (Resolved_config c)))
     = or_null (parseInt (toString (Math_round
         (fl (of_nat (window_screen_height d) * window_devicePixelRatio d))))) \<and>
   (\<not> generateBtn_disabled d \<longrightarrow>
      invoked (step (started d (Resolved_config c)) Click_generateBtn)
        = [get_config, generate_preview (buildRequest (started d (Resolved_config c)))])"
proof -
  let ?s = "started d (Resolved_config c)"
  have m: "truthy (default_mode c) \<Longrightarrow> Some (the (default_mode c)) = default_mode c"
    by (cases "default_mode c") (simp_all add: truthy_def)
  have inv: "invoked ?s = [get_config]" and gen: "generateBtn_disabled ?s = generateBtn_disabled d"
    by (simp_all add: started_resolved init_continue_def detectScreenResolution_def
        showToast_def updateModeVisibility_def loadConfig_resolved_def loaded_def
        init_start_def invoke_def Let_def)
  have click: "\<not> generateBtn_disabled d \<Longrightarrow>
      invoked (step ?s Click_generateBtn) = [get_config, generate_preview (buildRequest ?s)]"
    by (simp add: step_def gen generatePreview_start_def invoke_def inv Let_def)
  have dobs: "dobInput_value ?s =
      (if truthy (config.dob c) then sanitize (dobInput_type d) (the (config.dob c))
       else dobInput_value d)"
    by (simp add: started_resolved init_continue_def)
  have date: "config.dob c = Some x \<Longrightarrow> valid_date_string x \<Longrightarrow>
      dob (buildRequest ?s) = Some x"
    using valid_date_string_chars(1) [of x] sanitize_valid_date [of x "dobInput_type d"]
    by (simp add: buildRequest_def dobs truthy_def or_null_string_def)
  have rest: "theme (buildRequest ?s) = config.theme c \<and>
     (truthy (default_mode c) \<longrightarrow> Some (mode (buildRequest ?s)) = default_mode c) \<and>
     (truthy (config.dob c) \<longrightarrow>
        dob (buildRequest ?s) = or_null_string (sanitize (dobInput_type d) (the (config.dob c)))) \<and>
     (0 < lifespan_years c \<and> lifespan_years c < 2 ^ 53 \<longrightarrow>
        lifespan (buildRequest ?s) = Some (Num (of_nat (lifespan_years c)))) \<and>
     (0 < next_months c \<and> next_months c < 2 ^ 53 \<longrightarrow>
        months (buildRequest ?s) = Some (Num (of_nat (next_months c)))) \<and>
     width (buildRequest ?s)
       = or_null (parseInt (toString (Math_round
           (fl (of_nat (window_screen_width d) * window_devicePixelRatio d))))) \<and>
     height (buildRequest ?s)
       = or_null (parseInt (toString (Math_round
           (fl (of_nat (window_screen_height d) * window_devicePixelRatio d)))))"
    using m
    by (simp add: buildRequest_def started_resolved init_continue_def or_null_parseInt_dec)
  from rest date click show ?thesis
    by blast
qed

theorem C2_config_round_trip_witness:
  "mode (buildRequest (started document0 (Resolved_config config0))) = ''life'' \<and>
   config.dob config0 = Some ''1995-03-20'' \<and> valid_date_string ''1995-03-20'' \<and>
   dob (buildRequest (started document0 (Resolved_config config0))) = Some ''1995-03-20'' \<and>
   lifespan (buildRequest (started document0 (Resolved_config config0))) = Some (Num 80) \<and>
   months (buildRequest (started document0 (Resolved_config config0))) = Some (Num 6) \<and>
   theme (buildRequest (started document0 (Resolved_config config0))) = ''dark'' \<and>
   \<not> generateBtn_disabled document0 \<and>
   invoked (step (started document0 (Resolved_config config0)) Click_generateBtn)
     = [get_config, generate_preview (buildRequest (started document0 (Resolved_config config0)))]"
proof -
  let ?r = "buildRequest (started document0 (Resolved_config config0))"
  note A = C2_config_round_trip [of document0 config0 "''1995-03-20''"]
  have t: "truthy (default_mode config0)"
    and m: "default_mode config0 = Some ''life''"
    and b: "config.dob config0 = Some ''1995-03-20''"
    and l: "0 < lifespan_years config0" "lifespan_years config0 < 2 ^ 53"
    and n: "0 < next_months config0" "next_months config0 < 2 ^ 53"
    by (simp_all add: config0_def truthy_def)
  have d: "\<not> generateBtn_disabled document0"
    by (simp add: document0_def)
  note v = valid_date_1995_03_20
  from A t have "Some (mode ?r) = default_mode config0"
    by blast
  then have r1: "mode ?r = ''life''"
    by (simp add: m)
  from A b v have r2: "dob ?r = Some ''1995-03-20''"
    by blast
  from A l have "lifespan ?r = Some (Num (of_nat (lifespan_years config0)))"
    by blast
  then have r3: "lifespan ?r = Some (Num 80)"
    by (simp add: config0_def)
  from A n have "months ?r = Some (Num (of_nat (next_months config0)))"
    by blast
  then have r4: "months ?r = Some (Num 6)"
    by (simp add: config0_def)
  from A have "theme ?r = config.theme config0"
    by blast
  then have r5: "theme ?r = ''dark''"
    by (simp add: config0_def)
  from A d have r6: "invoked (step (started document0 (Resolved_config config0)) Click_generateBtn)
     = [get_config, generate_preview ?r]"
    by blast
  from r1 b v r2 r3 r4 r5 d r6 show ?thesis
    by blast
qed

section \<open>Claims about the stats of a preview\<close>

text \<open>
  Claim C3, as stated: for all non-negative integers, the percent stat is \<open>0\<close> when the
  total is \<open>0\<close> and \<open>round (elapsed / total * 100)\<close> otherwise.  For 23 elapsed weeks of 40
  the quotient times 100 is \<open>57.5\<close>, which rounds to \<open>58\<close>; the script computes in binary64,
  where the product is just below \<open>57.5\<close>, and shows \<open>57\<close>.
\<close>

theorem C3_percent_counterexample:
  "percent 23 40 = 57 \<and> fl (fl (23 / 40) * 100) < 23 / 40 * 100 \<and>
   round (23 / 40 * 100 :: rat) = 58"
  by (simp add: percent_23_40 fl_23_40_100 round_def)

text \<open>
  Claim C3, amended.  The percent stat is \<open>0\<close> when the total is \<open>0\<close>; otherwise it is
  \<^verbatim>\<open>Math.round\<close> of the binary64 value of \<^verbatim>\<open>(elapsed / total) * 100\<close>.  For fewer than
  \<open>2\<^sup>4\<^sup>3\<close> elapsed weeks, and a total that binary64 holds exactly, this is an integer
  nearest to \<open>100 * elapsed / total\<close>: it is \<open>round (100 * elapsed / total)\<close> unless that
  value lies exactly halfway between two integers, where either neighbour may come out.
  1300 elapsed weeks of 4160 give \<open>31\<close>.
\<close>

theorem C3_percent:
  "percent e 0 = 0 \<and>
   (0 < t \<longrightarrow> percent e t = Math_round (fl (fl (of_nat e / of_nat t) * 100))) \<and>
   percent 1300 4160 = 31 \<and>
   (0 < t \<and> t < 2 ^ 53 \<and> e < 2 ^ 43 \<longrightarrow>
      \<bar>of_int (percent e t) - 100 * of_nat e / of_nat t\<bar> \<le> (1 / 2 :: rat)) \<and>
   (0 < t \<and> t < 2 ^ 53 \<and> e < 2 ^ 43 \<and>
    frac (100 * of_nat e / of_nat t :: rat) \<noteq> 1 / 2 \<longrightarrow>
      percent e t = round (100 * of_nat e / of_nat t :: rat)) \<and>
   statPercent_text (generatePreview_resolved r s)
     = toString (percent (elapsed_weeks r) (total_weeks r)) @ ''%''"
  using percent_nearest [of t e] percent_round [of t e] percent_1300_4160
  by (simp add: percent_def generatePreview_resolved_def generatePreview_finally_def
      showToast_def)

theorem C3_percent_witness:
  "(0::nat) < 4160 \<and> (4160::nat) < 2 ^ 53 \<and> (1300::nat) < 2 ^ 43 \<and>
   frac (100 * of_nat 1300 / of_nat 4160 :: rat) = 1 / 4 \<and>
   percent 1300 4160 = round (100 * of_nat 1300 / of_nat 4160 :: rat) \<and>
   percent 1300 4160 = Math_round (fl (fl (of_nat 1300 / of_nat 4160) * 100)) \<and>
   \<bar>of_int (percent 1300 4160) - 100 * of_nat 1300 / of_nat 4160\<bar> \<le> (1 / 2 :: rat) \<and>
   (0::nat) < 40 \<and> (40::nat) < 2 ^ 53 \<and> (23::nat) < 2 ^ 43 \<and>
   \<bar>of_int (percent 23 40) - 100 * of_nat 23 / of_nat 40\<bar> \<le> (1 / 2 :: rat)"
proof -
  note A = C3_percent [of 1300 4160] and B = C3_percent [of 23 40]
  have "frac (125 / 4 :: rat) = 1 / 4"
    by (subst frac_unique_iff) simp
  then have f: "frac (100 * of_nat 1300 / of_nat 4160 :: rat) = 1 / 4"
    by simp
  then have nf: "frac (100 * of_nat 1300 / of_nat 4160 :: rat) \<noteq> 1 / 2"
    by simp
  have h1: "(0::nat) < 4160" "(4160::nat) < 2 ^ 53" "(1300::nat) < 2 ^ 43"
    and h2: "(0::nat) < 40" "(40::nat) < 2 ^ 53" "(23::nat) < 2 ^ 43"
    by simp_all
  from A h1 nf have r1: "percent 1300 4160 = round (100 * of_nat 1300 / of_nat 4160 :: rat)"
    by blast
  from A h1 have m1: "percent 1300 4160 = Math_round (fl (fl (of_nat 1300 / of_nat 4160) * 100))"
    by blast
  from A h1
  have n1: "\<bar>of_int (percent 1300 4160) - 100 * of_nat 1300 / of_nat 4160\<bar> \<le> (1 / 2 :: rat)"
    by blast
  from B h2
  have n2: "\<bar>of_int (percent 23 40) - 100 * of_nat 23 / of_nat 40\<bar> \<le> (1 / 2 :: rat)"
    by blast
  from h1 h2 f r1 m1 n1 n2 show ?thesis
    by blast
qed

section \<open>Claims about failures of the backend\<close>

text \<open>
  Claim C4.  When a \<^verbatim>\<open>generate_preview\<close> call rejects, the client shows an error
  notification and the preview state is the one before the call: the image, the title and
  subtitle, the three stats, \<^verbatim>\<open>hasPreview\<close> and whether the set-wallpaper button is
  disabled.  Starting the call does not touch the preview state either, so a call that is
  started in \<open>s\<close> and rejects at once ends with the preview state of \<open>s\<close>.
\<close>

theorem C4_generatePreview_failure:
  "preview_state (generatePreview_start s) = preview_state s \<and>
   (i < length (pending s) \<and> pending s ! i = Await_generate_preview \<longrightarrow>
      preview_state (step s (Settle i (Rejected e))) = preview_state s \<and>
      toastMessage_text (step s (Settle i (Rejected e))) = ''Error: '' @ e \<and>
      toast_className (step s (Settle i (Rejected e))) = [''toast'', ''show'', ''error'']) \<and>
   preview_state (step (generatePreview_start s) (Settle (length (pending s)) (Rejected e)))
     = preview_state s"
  by (simp add: step_def settle_def preview_state_def script_defs Let_def)

theorem C4_generatePreview_failure_witness:
  "preview_state (step (step (loaded document0) Click_generateBtn) (Settle 1 (Rejected ''boom'')))
     = preview_state (step (loaded document0) Click_generateBtn) \<and>
   toastMessage_text (step (step (loaded document0) Click_generateBtn) (Settle 1 (Rejected ''boom'')))
     = ''Error: boom'' \<and>
   pending (step (loaded document0) Click_generateBtn) ! 1 = Await_generate_preview"
proof -
  let ?s = "step (loaded document0) Click_generateBtn"
  have p: "pending ?s = [Await_get_config, Await_generate_preview]"
    by (simp add: step_def loaded_def document0_def script_defs Let_def)
  have "1 < length (pending ?s) \<and> pending ?s ! 1 = Await_generate_preview"
    by (simp add: p)
  with C4_generatePreview_failure [of ?s 1 "''boom''"] show ?thesis
    by simp
qed

text \<open>
  Claim C5.  The user flips the schedule toggle to \<open>b\<close> and \<^verbatim>\<open>toggle_schedule\<close> is called with
  \<open>b\<close>.  When the call rejects, the toggle is set to \<open>\<not> b\<close>, its value before the flip, and
  an error notification is shown; when it resolves, the toggle is left as it is, at \<open>b\<close>,
  and a success notification shows the message.
\<close>

theorem C5_toggleSchedule:
  "scheduleToggle_checked (change_scheduleToggle s) = (\<not> scheduleToggle_checked s) \<and>
   invoked (change_scheduleToggle s) = invoked s @ [toggle_schedule (\<not> scheduleToggle_checked s)] \<and>
   (i < length (pending s) \<and> pending s ! i = Await_toggle_schedule b \<longrightarrow>
      scheduleToggle_checked (step s (Settle i (Rejected e))) = (\<not> b) \<and>
      toastMessage_text (step s (Settle i (Rejected e))) = ''Error: '' @ e \<and>
      toast_className (step s (Settle i (Rejected e))) = [''toast'', ''show'', ''error''] \<and>
      scheduleToggle_checked (step s (Settle i (Resolved_message m))) = scheduleToggle_checked s \<and>
      toastMessage_text (step s (Settle i (Resolved_message m))) = m \<and>
      toast_className (step s (Settle i (Resolved_message m))) = [''toast'', ''show'', ''success'']) \<and>
   scheduleToggle_checked
     (run s [Change_scheduleToggle, Settle (length (pending s)) (Rejected e)])
       = scheduleToggle_checked s \<and>
   toast_className
     (run s [Change_scheduleToggle, Settle (length (pending s)) (Rejected e)])
       = [''toast'', ''show'', ''error''] \<and>
   scheduleToggle_checked
     (run s [Change_scheduleToggle, Settle (length (pending s)) (Resolved_message m)])
       = (\<not> scheduleToggle_checked s) \<and>
   toast_className
     (run s [Change_scheduleToggle, Settle (length (pending s)) (Resolved_message m)])
       = [''toast'', ''show'', ''success'']"
  by (simp add: run_def step_def settle_def script_defs Let_def)

theorem C5_toggleSchedule_witness:
  "pending (step (loaded document0) Change_scheduleToggle) ! 1 = Await_toggle_schedule True \<and>
   \<not> scheduleToggle_checked
       (step (step (loaded document0) Change_scheduleToggle) (Settle 1 (Rejected ''denied''))) \<and>
   toastMessage_text
       (step (step (loaded document0) Change_scheduleToggle) (Settle 1 (Rejected ''denied'')))
     = ''Error: denied''"
proof -
  let ?s = "step (loaded document0) Change_scheduleToggle"
  have p: "pending ?s = [Await_get_config, Await_toggle_schedule True]"
    by (simp add: step_def loaded_def document0_def script_defs Let_def)
  have "1 < length (pending ?s) \<and> pending ?s ! 1 = Await_toggle_schedule True"
    by (simp add: p)
  with C5_toggleSchedule [of ?s 1 True "''denied''"] show ?thesis
    by simp
qed

text \<open>
  Claim C6.  When \<^verbatim>\<open>save_config\<close> rejects, \<^verbatim>\<open>saveConfig\<close> writes one line to the console and
  returns: the state reached is the state reached when \<^verbatim>\<open>save_config\<close> resolves, but for
  that one line of the console.  In particular \<^verbatim>\<open>setWallpaper\<close> goes on to its success
  notification and re-enables its button, and a click on the set-wallpaper button whose
  \<^verbatim>\<open>set_wallpaper_cmd\<close> resolves ends in the success notification also when the
  \<^verbatim>\<open>save_config\<close> that follows rejects.
\<close>

theorem C6_saveConfig_failure:
  "(i < length (pending s) \<and> pending s ! i = Await_save_config \<longrightarrow>
      step s (Settle i (Rejected e))
        = (step s (Settle i Resolved_unit))
            \<lparr>console := console s @ [console_error ''Save config error:'' e]\<rparr> \<and>
      console (step s (Settle i Resolved_unit)) = console s \<and>
      console (step s (Settle i (Rejected e)))
        = console s @ [console_error ''Save config error:'' e] \<and>
      toastMessage_text (step s (Settle i (Rejected e))) = ''Wallpaper set successfully!'' \<and>
      toast_className (step s (Settle i (Rejected e))) = [''toast'', ''show'', ''success''] \<and>
      \<not> setWallpaperBtn_disabled (step s (Settle i (Rejected e))) \<and>
      \<not> setWallpaperBtn_loading (step s (Settle i (Rejected e)))) \<and>
   (\<not> setWallpaperBtn_disabled s \<longrightarrow>
      run s [Click_setWallpaperBtn, Settle (length (pending s)) (Resolved_message m),
             Settle (length (pending s)) (Rejected e)]
        = (run s [Click_setWallpaperBtn, Settle (length (pending s)) (Resolved_message m),
                  Settle (length (pending s)) Resolved_unit])
            \<lparr>console := console s @ [console_error ''Save config error:'' e]\<rparr> \<and>
      toastMessage_text
        (run s [Click_setWallpaperBtn, Settle (length (pending s)) (Resolved_message m),
                Settle (length (pending s)) (Rejected e)]) = ''Wallpaper set successfully!'' \<and>
      toast_className
        (run s [Click_setWallpaperBtn, Settle (length (pending s)) (Resolved_message m),
                Settle (length (pending s)) (Rejected e)]) = [''toast'', ''show'', ''success''] \<and>
      console
        (run s [Click_setWallpaperBtn, Settle (length (pending s)) (Resolved_message m),
                Settle (length (pending s)) (Rejected e)])
        = console s @ [console_error ''Save config error:'' e])"
  by (simp add: run_def step_def settle_def script_defs Let_def)

theorem C6_saveConfig_failure_witness:
  "pending saving ! 1 = Await_save_config \<and>
   step saving (Settle 1 (Rejected ''disk full''))
     = (step saving (Settle 1 Resolved_unit))
         \<lparr>console := console saving @ [console_error ''Save config error:'' ''disk full'']\<rparr> \<and>
   toastMessage_text (step saving (Settle 1 (Rejected ''disk full'')))
     = ''Wallpaper set successfully!'' \<and>
   \<not> setWallpaperBtn_disabled previewed \<and>
   toastMessage_text
     (run previewed [Click_setWallpaperBtn, Settle 1 (Resolved_message ''done''),
                     Settle 1 (Rejected ''disk full'')]) = ''Wallpaper set successfully!'' \<and>
   console
     (run previewed [Click_setWallpaperBtn, Settle 1 (Resolved_message ''done''),
                     Settle 1 (Rejected ''disk full'')])
     = console previewed @ [console_error ''Save config error:'' ''disk full'']"
proof -
  have len: "length (pending previewed) = 1"
    by (simp add: previewed_facts)
  note A = C6_saveConfig_failure [of 0 previewed "''disk full''" "''done''", unfolded len]
  note B = C6_saveConfig_failure [of 1 saving "''disk full''" "''done''"]
  have p: "\<not> setWallpaperBtn_disabled previewed"
    by (rule previewed_facts)
  have q: "1 < length (pending saving)" "pending saving ! 1 = Await_save_config"
    by (simp_all add: saving_facts)
  from A p have a1: "toastMessage_text
     (run previewed [Click_setWallpaperBtn, Settle 1 (Resolved_message ''done''),
                     Settle 1 (Rejected ''disk full'')]) = ''Wallpaper set successfully!''"
    and a2: "console
     (run previewed [Click_setWallpaperBtn, Settle 1 (Resolved_message ''done''),
                     Settle 1 (Rejected ''disk full'')])
     = console previewed @ [console_error ''Save config error:'' ''disk full'']"
    by blast+
  from B q have b1: "step saving (Settle 1 (Rejected ''disk full''))
     = (step saving (Settle 1 Resolved_unit))
         \<lparr>console := console saving @ [console_error ''Save config error:'' ''disk full'']\<rparr>"
    and b2: "toastMessage_text (step saving (Settle 1 (Rejected ''disk full'')))
     = ''Wallpaper set successfully!''"
    by blast+
  from q(2) b1 b2 p a1 a2 show ?thesis
    by blast
qed

section \<open>Claims about the preview flag\<close>

text \<open>
  Claim C7.  \<^verbatim>\<open>hasPreview\<close> is false when the script has loaded; a step turns it from false
  to true only if the step is a \<^verbatim>\<open>generate_preview\<close> call that resolves, and every such
  step sets it; once true it stays true along every sequence of events.  So after any
  run from the loaded state it is true exactly when some preview has succeeded.
\<close>

theorem C7_hasPreview_monotonic:
  "\<not> hasPreview (loaded d) \<and>
   (hasPreview (run (loaded d) es) \<longleftrightarrow> 0 < successes (loaded d) es) \<and>
   (\<not> hasPreview s \<and> hasPreview (step s e) \<longrightarrow> preview_success s e) \<and>
   (preview_success s e \<longrightarrow> hasPreview (step s e)) \<and>
   (hasPreview s \<longrightarrow> hasPreview (run s es))"
  using hasPreview_run [of "loaded d" es] hasPreview_run [of s es] hasPreview_gain [of s e]
    preview_success_hasPreview [of s e]
  by auto

theorem C7_hasPreview_monotonic_witness:
  "\<not> hasPreview generating \<and>
   hasPreview (step generating (Settle 1 (Resolved_preview preview0))) \<and>
   preview_success generating (Settle 1 (Resolved_preview preview0)) \<and>
   hasPreview previewed \<and>
   hasPreview (run previewed [Click_setWallpaperBtn, Settle 1 (Rejected ''no''),
                              Change_input Dob ''1990-01-15'', Settle 1 (Rejected ''no'')])"
proof -
  have "preview_success generating (Settle 1 (Resolved_preview preview0))"
    by (simp add: preview_success_def generating_facts)
  with C7_hasPreview_monotonic [where d = document0 and es = "[]" and s = generating
        and e = "Settle 1 (Resolved_preview preview0)"]
    C7_hasPreview_monotonic [where d = document0 and s = previewed
        and e = "Settle 1 (Resolved_preview preview0)"
        and es = "[Click_setWallpaperBtn, Settle 1 (Rejected ''no''),
                   Change_input Dob ''1990-01-15'', Settle 1 (Rejected ''no'')]"]
  show ?thesis
    by (simp add: generating_facts previewed_facts del: run_Cons)
qed



section \<open>Claims about the start\<close>

text \<open>
  Claim C9.  Whether \<^verbatim>\<open>get_config\<close> resolves or rejects, \<^verbatim>\<open>init\<close> goes on with
  \<^verbatim>\<open>updateModeVisibility\<close> and \<^verbatim>\<open>detectScreenResolution\<close>, which writes
  \<^verbatim>\<open>Math.round(screen.width * devicePixelRatio)\<close> and
  \<^verbatim>\<open>Math.round(screen.height * devicePixelRatio)\<close> into the width and height inputs.  The
  width and height of the request built next are read from these inputs: they are the
  same for every configuration, and the same when no configuration was loaded.
\<close>

theorem C9_init_detects_resolution:
  "started d (Resolved_config c) =
     detectScreenResolution (updateModeVisibility
       (loadConfig_resolved c ((loaded d)\<lparr>pending := []\<rparr>))) \<and>
   started d (Rejected e) =
     detectScreenResolution (updateModeVisibility
       (loadConfig_rejected e ((loaded d)\<lparr>pending := []\<rparr>))) \<and>
   ((r = Resolved_config c \<or> r = Rejected e) \<longrightarrow>
      widthInput_value (started d r) = toString (Math_round
        (fl (of_nat (window_screen_width d) * window_devicePixelRatio d))) \<and>
      heightInput_value (started d r) = toString (Math_round
        (fl (of_nat (window_screen_height d) * window_devicePixelRatio d))) \<and>
      width (buildRequest (started d r)) = or_null (parseInt (toString (Math_round
        (fl (of_nat (window_screen_width d) * window_devicePixelRatio d))))) \<and>
      height (buildRequest (started d r)) = or_null (parseInt (toString (Math_round
        (fl (of_nat (window_screen_height d) * window_devicePixelRatio d))))) \<and>
      width (buildRequest (started d r)) = width (buildRequest (started d (Resolved_config c'))) \<and>
      height (buildRequest (started d r)) = height (buildRequest (started d (Resolved_config c'))))"
  by (auto simp add: started_resolved started_rejected init_continue_def buildRequest_def)

theorem C9_init_detects_resolution_witness:
  "widthInput_value (started document0 (Resolved_config config0)) = ''2560'' \<and>
   heightInput_value (started document0 (Resolved_config config0)) = ''1440'' \<and>
   widthInput_value (started document0 (Rejected ''no config'')) = ''2560'' \<and>
   heightInput_value (started document0 (Rejected ''no config'')) = ''1440'' \<and>
   screen_width config0 = 1920 \<and> screen_height config0 = 1080"
  using C9_init_detects_resolution [of document0 config0 "''no config''" "Resolved_config config0" config0]
    C9_init_detects_resolution [of document0 config0 "''no config''" "Rejected ''no config''" config0]
  by (simp add: document0_screen dec_2560 dec_1440 config0_def)

section \<open>Claims about the change listener\<close>

text \<open>
  Claim C10.  A change of the date-of-birth, lifespan or months input starts a
  \<^verbatim>\<open>generate_preview\<close> call, with the request built from the new value, if and only if
  \<^verbatim>\<open>hasPreview\<close> is set; otherwise no call is made.  In particular, as long as no preview
  has succeeded since the script loaded, changing these inputs makes no call.
\<close>

theorem C10_auto_generate:
  "(f = Dob \<or> f = Lifespan \<or> f = Months \<longrightarrow>
      invoked (step s (Change_input f v))
        = (if hasPreview s then invoked s @ [generate_preview (buildRequest (set_value f v s))]
           else invoked s) \<and>
      pending (step s (Change_input f v))
        = (if hasPreview s then pending s @ [Await_generate_preview] else pending s)) \<and>
   (f = Dob \<or> f = Lifespan \<or> f = Months \<longrightarrow> successes (loaded d) es = 0 \<longrightarrow>
      invoked (step (run (loaded d) es) (Change_input f v)) = invoked (run (loaded d) es) \<and>
      pending (step (run (loaded d) es) (Change_input f v)) = pending (run (loaded d) es))"
proof -
  have hp: "hasPreview (set_value f v s) = hasPreview s" for s
    by (simp add: set_value_def split: field.splits)
  have iv: "invoked (set_value f v s) = invoked s" "pending (set_value f v s) = pending s" for s
    by (simp_all add: set_value_def split: field.splits)
  have a: "f = Dob \<or> f = Lifespan \<or> f = Months \<Longrightarrow>
      invoked (step s (Change_input f v))
        = (if hasPreview s then invoked s @ [generate_preview (buildRequest (set_value f v s))]
           else invoked s) \<and>
      pending (step s (Change_input f v))
        = (if hasPreview s then pending s @ [Await_generate_preview] else pending s)" for s
    by (simp add: step_def change_input_def auto_generate_def hp iv generatePreview_start_def
        invoke_def Let_def)
  have b: "successes (loaded d) es = 0 \<Longrightarrow> \<not> hasPreview (run (loaded d) es)"
    using hasPreview_run [of "loaded d" es] by simp
  show ?thesis
    using a [of s] a [of "run (loaded d) es"] b by auto
qed

theorem C10_auto_generate_witness:
  "hasPreview previewed \<and>
   invoked (step previewed (Change_input Dob ''1990-01-15''))
     = invoked previewed
         @ [generate_preview (buildRequest (set_value Dob ''1990-01-15'' previewed))] \<and>
   \<not> hasPreview (loaded document0) \<and>
   invoked (step (loaded document0) (Change_input Lifespan ''90'')) = invoked (loaded document0) \<and>
   successes (loaded document0) [Click_generateBtn, Settle 1 (Rejected ''no'')] = 0 \<and>
   invoked (step (run (loaded document0) [Click_generateBtn, Settle 1 (Rejected ''no'')])
              (Change_input Months ''3''))
     = invoked (run (loaded document0) [Click_generateBtn, Settle 1 (Rejected ''no'')])"
proof -
  have z: "successes (loaded document0) [Click_generateBtn, Settle 1 (Rejected ''no'')] = 0"
    by (simp add: preview_success_def)
  from C10_auto_generate [of Dob previewed "''1990-01-15''" document0 "[]"]
    C10_auto_generate [of Lifespan "loaded document0" "''90''" document0 "[]"]
    C10_auto_generate [of Months previewed "''3''" document0
      "[Click_generateBtn, Settle 1 (Rejected ''no'')]"] z
  show ?thesis
    by (simp add: previewed_facts del: run_Cons successes.simps)
qed


end
